theory Spec2Isabelle
  imports Main "HOL-Library.AList"
begin

section \<open>A TypeScript module loader: resolution, transpilation and linking\<close>

text \<open>
  This theory embeds \<^verbatim>\<open>src/index.ts\<close>: the loader hook \<^verbatim>\<open>resolve\<close>, the builder
  \<^verbatim>\<open>transpileTypeScriptToModule\<close>, the callback \<^verbatim>\<open>linker\<close> with its module cache
  \<^verbatim>\<open>moduleMap\<close>, and the entry point \<^verbatim>\<open>dynamicInstantiate\<close>.

  The file talks to Node.js (\<^verbatim>\<open>URL\<close>, \<^verbatim>\<open>path\<close>, \<^verbatim>\<open>fs\<close>, \<^verbatim>\<open>vm\<close>, \<^verbatim>\<open>import()\<close>), to
  \<^verbatim>\<open>globby\<close> and to the TypeScript compiler. Those libraries are not part of the
  repository; they are gathered in a record \<open>host\<close> of functions over which every
  definition is parameterised. A call that can throw or reject returns a sum, with
  \<open>Inl\<close> the error. Promises are awaited one after the other: the model is sequential.

  JavaScript strings are modelled by \<^typ>\<open>string\<close>, that is by sequences of 8-bit
  characters; code units above \<open>0xFF\<close> do not occur in it.
\<close>

subsection \<open>JavaScript values\<close>

text \<open>
  The values a module can export, as far as the linker looks at them: it tests the
  default export for truthiness and copies own enumerable string-keyed properties.
  An object (a function, an array, a class instance) is its list of own enumerable
  properties in creation order. Numbers only matter through \<^verbatim>\<open>ToBoolean\<close>; they are
  represented by integers, with \<open>NaN\<close> apart. Symbols are all alike to the linker.
\<close>

datatype jsval =
    JSUndefined
  | JSNull
  | JSBoolean bool
  | JSNumber int
  | JSNaN
  | JSBigInt int
  | JSString string
  | JSSymbol
  | JSObject "(string \<times> jsval) list"

type_synonym props = "(string \<times> jsval) list"

text \<open>Reading a property: \<^verbatim>\<open>o[k]\<close> is \<^verbatim>\<open>undefined\<close> when \<open>o\<close> has no property \<open>k\<close>.\<close>

definition get_prop :: "props \<Rightarrow> string \<Rightarrow> jsval" where
  "get_prop ps k = (case map_of ps k of None \<Rightarrow> JSUndefined | Some v \<Rightarrow> v)"

text \<open>
  \<^verbatim>\<open>Object.keys\<close>: the names of the own enumerable properties. The engine lists the
  keys that are array indices first; the model lists all keys in creation order, and
  the properties proved below only speak of the set of keys.
\<close>

definition Object_keys :: "props \<Rightarrow> string list" where
  "Object_keys ps = map fst ps"

text \<open>\<^verbatim>\<open>ToBoolean\<close>, the test an \<^verbatim>\<open>if\<close> applies to its condition.\<close>

fun ToBoolean :: "jsval \<Rightarrow> bool" where
  "ToBoolean JSUndefined = False"
| "ToBoolean JSNull = False"
| "ToBoolean (JSBoolean b) = b"
| "ToBoolean (JSNumber n) = (n \<noteq> 0)"
| "ToBoolean JSNaN = False"
| "ToBoolean (JSBigInt n) = (n \<noteq> 0)"
| "ToBoolean (JSString s) = (s \<noteq> [])"
| "ToBoolean JSSymbol = True"
| "ToBoolean (JSObject ps) = True"

text \<open>The decimal name of an index, as in the keys \<^verbatim>\<open>"0"\<close>, \<^verbatim>\<open>"1"\<close> of a string.\<close>

fun nat_to_string :: "nat \<Rightarrow> string" where
  "nat_to_string n =
     (if n < 10 then [char_of (48 + n)]
      else nat_to_string (n div 10) @ [char_of (48 + n mod 10)])"

declare nat_to_string.simps [simp del]

fun string_index_props :: "nat \<Rightarrow> string \<Rightarrow> props" where
  "string_index_props i [] = []"
| "string_index_props i (c # cs) = (nat_to_string i, JSString [c]) # string_index_props (Suc i) cs"

text \<open>
  The own enumerable properties that an object spread \<^verbatim>\<open>{...v}\<close> reads from \<open>v\<close>:
  none for \<^verbatim>\<open>undefined\<close>, \<^verbatim>\<open>null\<close>, booleans, numbers and symbols, the characters by
  index for a string, the properties themselves for an object.
\<close>

fun own_enumerable :: "jsval \<Rightarrow> props" where
  "own_enumerable (JSString s) = string_index_props 0 s"
| "own_enumerable (JSObject ps) = ps"
| "own_enumerable v = []"

text \<open>
  \<^verbatim>\<open>CopyDataProperties\<close>, one \<^verbatim>\<open>...source\<close> of an object literal: for every own key of
  the source, in order, read the value and define the property on the target. A key
  the target already has keeps its place and takes the new value.
\<close>

definition CopyDataProperties :: "props \<Rightarrow> jsval \<Rightarrow> props" where
  "CopyDataProperties target source =
     (let src = own_enumerable source
      in foldl (\<lambda>t k. AList.update k (get_prop src k) t) target (Object_keys src))"

text \<open>The object literal \<^verbatim>\<open>{ ...a, ...b }\<close>.\<close>

definition spread :: "jsval \<Rightarrow> jsval \<Rightarrow> props" where
  "spread a b = CopyDataProperties (CopyDataProperties [] a) b"

subsection \<open>Strings and the path test\<close>

definition startsWith :: "string \<Rightarrow> string \<Rightarrow> bool" where
  "startsWith s p = (take (length p) s = p)"

fun join :: "string \<Rightarrow> string list \<Rightarrow> string" where
  "join sep [] = []"
| "join sep [x] = x"
| "join sep (x # y # ys) = x @ sep @ join sep (y # ys)"

text \<open>
  In a regular expression without flags, \<^verbatim>\<open>.\<close> matches any character but a line
  terminator (of which \<open>LF\<close> and \<open>CR\<close> are the two in the 8-bit range).
\<close>

definition is_line_terminator :: "char \<Rightarrow> bool" where
  "is_line_terminator c = (c = CHR 0x0A \<or> c = CHR 0x0D)"

text \<open>
  \<open>dot_upto_slash n s\<close>: the pattern \<^verbatim>\<open>.{0,n}[/]\<close> matches a prefix of \<open>s\<close>. Either the
  first character is the slash, or it is matched by a \<^verbatim>\<open>.\<close> and the rest of the
  pattern, with one repetition fewer, matches the rest of the string.
\<close>

fun dot_upto_slash :: "nat \<Rightarrow> string \<Rightarrow> bool" where
  "dot_upto_slash n [] = False"
| "dot_upto_slash 0 (c # cs) = (c = CHR ''/'')"
| "dot_upto_slash (Suc n) (c # cs) =
     (c = CHR ''/'' \<or> (\<not> is_line_terminator c \<and> dot_upto_slash n cs))"

text \<open>\<^verbatim>\<open>const modTester = new RegExp('^.{0,2}[/]')\<close>, and \<^verbatim>\<open>modTester.test(specifier)\<close>.\<close>

definition modTester_test :: "string \<Rightarrow> bool" where
  "modTester_test specifier = dot_upto_slash (Suc (Suc 0)) specifier"

subsection \<open>The host: Node.js, globby and the TypeScript compiler\<close>

text \<open>A \<^verbatim>\<open>URL\<close> object, by the three accessors the loader reads.\<close>

record URL =
  href :: string
  protocol :: string
  pathname :: string

text \<open>\<^verbatim>\<open>ResolvedModule\<close>, the result of the \<^verbatim>\<open>resolve\<close> hook.\<close>

record resolved_module =
  format :: string
  url :: string

text \<open>\<^verbatim>\<open>ts.Diagnostic\<close>, by its category, code and message.\<close>

datatype DiagnosticCategory = Warning | Error | Suggestion | Message

record diagnostic =
  category :: DiagnosticCategory
  code :: int
  messageText :: string

text \<open>
  The values the loader can throw. \<open>HostError\<close> is whatever a host call threw or
  rejected with; \<open>TSError ds\<close> is \<^verbatim>\<open>createTSError(ds)\<close>, the error value that
  \<^verbatim>\<open>./TypeScriptError\<close> builds from the diagnostics it is given; \<open>JSError msg\<close> is
  \<^verbatim>\<open>new Error(msg)\<close>; \<open>SyntaxError msg\<close> is the \<^verbatim>\<open>SyntaxError\<close> that the constructor of
  \<^verbatim>\<open>SourceTextModule\<close> throws for a text the VM cannot parse as a module.
\<close>

datatype error = HostError string | TSError "diagnostic list" | JSError string | SyntaxError string

text \<open>Modelled from the spec: \<^verbatim>\<open>createTSError\<close> of \<^verbatim>\<open>./TypeScriptError\<close>, a function from
  the diagnostic list to an error value (``formatDiagnostics(diagnosticList) -> Error'');
  the error keeps the list it was built from.\<close>

definition createTSError :: "diagnostic list \<Rightarrow> error" where
  "createTSError diagnostics = TSError diagnostics"

text \<open>
  \<^verbatim>\<open>ts.createProgram(rootNames, options)\<close> is determined by its two arguments; the
  options of \<^verbatim>\<open>ts.transpileModule\<close> are the two the loader passes.
\<close>

record program =
  rootNames :: "string list"
  options :: props

definition createProgram :: "string list \<Rightarrow> props \<Rightarrow> program" where
  "createProgram names opts = \<lparr>rootNames = names, options = opts\<rparr>"

record transpile_options =
  compilerOptions :: props
  reportDiagnostics :: bool

text \<open>\<^verbatim>\<open>ts.ScriptTarget.ESNext\<close> and \<^verbatim>\<open>ts.ModuleKind.ESNext\<close>, both the number 99.\<close>

definition ScriptTarget_ESNext :: jsval where
  "ScriptTarget_ESNext = JSNumber 99"

definition ModuleKind_ESNext :: jsval where
  "ModuleKind_ESNext = JSNumber 99"

text \<open>
  What \<^verbatim>\<open>module.link(linker)\<close> of \<^verbatim>\<open>vm\<close> does is the host's business, but it reaches
  the loader only through the callback it is given. So the host's side of a link step
  is a script: it is done with a result, or it calls the linker with a specifier and
  the \<^verbatim>\<open>url\<close> of a parent module and goes on from what the linker answers (an error,
  or a reference to a module object).
\<close>

datatype 'a linkprog =
    Done 'a
  | Call string string "error + nat \<Rightarrow> 'a linkprog"

text \<open>
  The host. \<open>baseURL\<close> is \<^verbatim>\<open>pathToFileURL(process.cwd()).href\<close>. \<open>new_URL x None\<close> is
  \<^verbatim>\<open>new URL(x)\<close> and \<open>new_URL x (Some b)\<close> is \<^verbatim>\<open>new URL(x, b)\<close>. \<open>fileURLToPath\<close> and
  \<open>fs_readFile\<close> take the \<^verbatim>\<open>href\<close> of the URL they are given. \<open>globby pattern cwd\<close> is
  \<^verbatim>\<open>globby(pattern, {cwd, absolute: true})\<close>. \<open>fs_readFile\<close> gives the text of the
  file (\<^verbatim>\<open>sourceFile.toString()\<close>), \<open>ts_transpileModule\<close> the \<^verbatim>\<open>outputText\<close> of the
  result, \<open>native_import\<close> the own enumerable properties of the namespace object of
  \<^verbatim>\<open>import(url)\<close>. \<open>vm_parse src\<close> is what the VM says of the text \<open>src\<close> when a
  \<^verbatim>\<open>SourceTextModule\<close> is constructed from it: \<open>None\<close> when the text parses as a module,
  the message of the \<^verbatim>\<open>SyntaxError\<close> otherwise. \<open>vm_default_url\<close> is the \<^verbatim>\<open>url\<close> that the
  constructor of \<^verbatim>\<open>SourceTextModule\<close> gives a module built without the \<^verbatim>\<open>url\<close> option.

  Modelled from the spec: \<^verbatim>\<open>getTSConfig\<close> of \<^verbatim>\<open>./Utils\<close>
  (``getProjectConfig(directoryPath) -> CompilerOptionsRecord''), which may depend on
  the root path that \<^verbatim>\<open>setRootPath\<close> recorded.
\<close>

record host =
  baseURL :: string
  new_URL :: "string \<Rightarrow> string option \<Rightarrow> error + URL"
  path_extname :: "string \<Rightarrow> string"
  path_dirname :: "string \<Rightarrow> string"
  fileURLToPath :: "string \<Rightarrow> error + string"
  globby :: "string \<Rightarrow> string \<Rightarrow> string list"
  fs_readFile :: "string \<Rightarrow> error + string"
  getTSConfig :: "string option \<Rightarrow> string \<Rightarrow> error + jsval"
  ts_getPreEmitDiagnostics :: "program \<Rightarrow> diagnostic list"
  ts_transpileModule :: "string \<Rightarrow> transpile_options \<Rightarrow> string"
  native_import :: "string \<Rightarrow> error + props"
  vm_parse :: "string \<Rightarrow> string option"
  vm_default_url :: "nat \<Rightarrow> string"
  vm_link :: "nat \<Rightarrow> (error + unit) linkprog"

subsection \<open>The format resolver\<close>

definition TS_EXTENSIONS :: "string list" where
  "TS_EXTENSIONS = [''.ts'', ''.tsx'']"

text \<open>
  \<^verbatim>\<open>resolve(specifier, parentModuleURL = baseURL, defaultResolverFn?)\<close>. A missing
  argument is \<open>None\<close>.
\<close>

definition resolve ::
  "host \<Rightarrow> string \<Rightarrow> string option \<Rightarrow> (string \<Rightarrow> string \<Rightarrow> error + resolved_module) option
     \<Rightarrow> error + resolved_module" where
  "resolve h specifier parentModuleURL_arg defaultResolverFn =
     (let parentModuleURL = (case parentModuleURL_arg of None \<Rightarrow> baseURL h | Some p \<Rightarrow> p)
      in if \<not> modTester_test specifier \<and> \<not> startsWith specifier ''file:'' then
           (case defaultResolverFn of
              Some f \<Rightarrow> f specifier parentModuleURL
            | None \<Rightarrow> Inr \<lparr>format = ''module'', url = specifier\<rparr>)
         else
           (case new_URL h specifier (Some parentModuleURL) of
              Inl e \<Rightarrow> Inl e
            | Inr resolved \<Rightarrow>
                let ext = path_extname h (pathname resolved);
                    by_extension =
                      (if ext \<in> set TS_EXTENSIONS
                       then Inr \<lparr>format = ''dynamic'', url = href resolved\<rparr>
                       else Inr \<lparr>format = ''module'', url = href resolved\<rparr>)
                in if ext = [] \<and> protocol resolved = ''file:'' then
                     (case fileURLToPath h parentModuleURL of
                        Inl e \<Rightarrow> Inl e
                      | Inr parentPath \<Rightarrow>
                          let possibleFiles =
                                globby h (specifier @ ''{'' @ join '','' TS_EXTENSIONS @ ''}'')
                                  (path_dirname h parentPath)
                          in if length possibleFiles = 1
                             then Inr \<lparr>format = ''dynamic'', url = ''file://'' @ possibleFiles ! 0\<rparr>
                             else by_extension)
                   else by_extension))"

subsection \<open>Module objects and the loader's state\<close>

text \<open>
  A \<^verbatim>\<open>SourceTextModule\<close> carries its source text and its \<^verbatim>\<open>url\<close>; a
  \<^verbatim>\<open>SyntheticModule\<close> its export names and, in the closure of its evaluation step, the
  object \<^verbatim>\<open>link\<close> whose properties that step copies with \<^verbatim>\<open>setExport\<close>. Evaluation
  is not part of the model, and so the hook \<^verbatim>\<open>initializeImportMeta\<close>, which only runs
  then, is not either; the hook \<^verbatim>\<open>importModuleDynamically\<close> is defined further down.
\<close>

record source_text_module =
  sourceText :: string
  module_url :: string

record synthetic_module =
  exportNames :: "string list"
  link_object :: props

datatype vm_module =
    SourceTextModule source_text_module
  | SyntheticModule synthetic_module

text \<open>
  JavaScript objects have identity: two modules built from the same text are two
  objects. Module objects live in a heap, at references handed out in increasing
  order, and \<^verbatim>\<open>moduleMap\<close> maps a URL to the reference of a module object.

  \<open>rootPath\<close> is what \<^verbatim>\<open>setRootPath\<close> recorded last and \<open>console_error\<close> what
  \<^verbatim>\<open>console.error\<close> has printed. \<open>transpile_calls\<close> is a history variable: the
  arguments of the calls of \<^verbatim>\<open>transpileTypeScriptToModule\<close> so far, in order.
\<close>

record loader_state =
  moduleMap :: "string \<Rightarrow> nat option"
  heap :: "nat \<Rightarrow> vm_module option"
  next_ref :: nat
  rootPath :: "string option"
  console_error :: "error list"
  transpile_calls :: "string list"

text \<open>The state when the loader has just been loaded: \<^verbatim>\<open>new Map()\<close>, and no object yet.\<close>

definition initial_state :: loader_state where
  "initial_state =
     \<lparr>moduleMap = Map.empty, heap = Map.empty, next_ref = 0, rootPath = None,
      console_error = [], transpile_calls = []\<rparr>"

definition new_object :: "vm_module \<Rightarrow> loader_state \<Rightarrow> nat \<times> loader_state" where
  "new_object m s =
     (next_ref s, s\<lparr>heap := (heap s)(next_ref s \<mapsto> m), next_ref := Suc (next_ref s)\<rparr>)"

text \<open>
  \<^verbatim>\<open>new SourceTextModule(src, {...})\<close>, built without the \<^verbatim>\<open>url\<close> option. The
  constructor parses the text; when the text does not parse it throws, and no object
  has been built.
\<close>

definition new_SourceTextModule ::
  "host \<Rightarrow> string \<Rightarrow> loader_state \<Rightarrow> (error + nat) \<times> loader_state" where
  "new_SourceTextModule h src s =
     (case vm_parse h src of
        Some msg \<Rightarrow> (Inl (SyntaxError msg), s)
      | None \<Rightarrow>
          (case new_object
                  (SourceTextModule
                     \<lparr>sourceText = src, module_url = vm_default_url h (next_ref s)\<rparr>) s of
             (r, s') \<Rightarrow> (Inr r, s')))"

text \<open>\<^verbatim>\<open>new SyntheticModule(linkKeys, function() {...}, {...})\<close>.\<close>

definition new_SyntheticModule :: "string list \<Rightarrow> props \<Rightarrow> loader_state \<Rightarrow> nat \<times> loader_state" where
  "new_SyntheticModule linkKeys link s =
     new_object (SyntheticModule \<lparr>exportNames = linkKeys, link_object = link\<rparr>) s"

text \<open>The assignment \<^verbatim>\<open>sourceTextModule.url = u\<close>.\<close>

definition set_module_url :: "nat \<Rightarrow> string \<Rightarrow> loader_state \<Rightarrow> loader_state" where
  "set_module_url r u s =
     (case heap s r of
        Some (SourceTextModule m) \<Rightarrow> s\<lparr>heap := (heap s)(r \<mapsto> SourceTextModule (m\<lparr>module_url := u\<rparr>))\<rparr>
      | _ \<Rightarrow> s)"

text \<open>Modelled from the spec: \<^verbatim>\<open>setRootPath\<close> of \<^verbatim>\<open>./Utils\<close>
  (``setActiveRoot(directoryPath) -> void''), which records the directory.\<close>

definition setRootPath :: "string \<Rightarrow> loader_state \<Rightarrow> loader_state" where
  "setRootPath dir s = s\<lparr>rootPath := Some dir\<rparr>"

text \<open>\<^verbatim>\<open>console.error(err)\<close>.\<close>

definition console_error_log :: "error \<Rightarrow> loader_state \<Rightarrow> loader_state" where
  "console_error_log err s = s\<lparr>console_error := console_error s @ [err]\<rparr>"

subsection \<open>The module builder\<close>

text \<open>
  The two option objects of \<^verbatim>\<open>transpileTypeScriptToModule\<close>:
  \<^verbatim>\<open>{...tsConfig, target: ESNext, module: ESNext}\<close> and
  \<^verbatim>\<open>{...compilerOptions, typeRoots: []}\<close>.
\<close>

definition compilerOptions_of :: "jsval \<Rightarrow> props" where
  "compilerOptions_of tsConfig =
     AList.update ''module'' ModuleKind_ESNext
       (AList.update ''target'' ScriptTarget_ESNext (CopyDataProperties [] tsConfig))"

definition programOptions_of :: "props \<Rightarrow> props" where
  "programOptions_of opts =
     AList.update ''typeRoots'' (JSObject []) (CopyDataProperties [] (JSObject opts))"

text \<open>
  \<^verbatim>\<open>transpileTypeScriptToModule(sourcePathURLString)\<close>. The first line of the model
  records the call in the history variable; the rest follows the source line by line.
\<close>

definition transpileTypeScriptToModule ::
  "host \<Rightarrow> string \<Rightarrow> loader_state \<Rightarrow> (error + nat) \<times> loader_state" where
  "transpileTypeScriptToModule h sourcePathURLString s0 =
     (let s = s0\<lparr>transpile_calls := transpile_calls s0 @ [sourcePathURLString]\<rparr>
      in case new_URL h sourcePathURLString None of
           Inl e \<Rightarrow> (Inl e, s)
         | Inr sourceFileURL \<Rightarrow>
        (case fileURLToPath h (href sourceFileURL) of
           Inl e \<Rightarrow> (Inl e, s)
         | Inr sourceFilePath \<Rightarrow>
        (case fs_readFile h (href sourceFileURL) of
           Inl e \<Rightarrow> (Inl e, s)
         | Inr sourceFile \<Rightarrow>
        (let s1 = setRootPath (path_dirname h sourceFilePath) s
         in case getTSConfig h (rootPath s1) (path_dirname h sourceFilePath) of
           Inl e \<Rightarrow> (Inl e, s1)
         | Inr tsConfig \<Rightarrow>
        (let compilerOptions = compilerOptions_of tsConfig;
             program = createProgram [sourceFilePath] (programOptions_of compilerOptions);
             diagnostics = ts_getPreEmitDiagnostics h program;
             outputText =
               ts_transpileModule h sourceFile
                 \<lparr>compilerOptions = compilerOptions, reportDiagnostics = True\<rparr>
         in if length diagnostics \<noteq> 0 then (Inl (createTSError diagnostics), s1)
            else (case new_SourceTextModule h outputText s1 of
                    (Inl e, s2) \<Rightarrow> (Inl e, s2)
                  | (Inr sourceTextModule, s2) \<Rightarrow>
                      (Inr sourceTextModule,
                       set_module_url sourceTextModule sourcePathURLString s2)))))))"

subsection \<open>The linker and the module cache\<close>

text \<open>
  \<^verbatim>\<open>linker(specifier, parentModule)\<close>; of \<^verbatim>\<open>parentModule\<close> it reads the \<^verbatim>\<open>url\<close> only,
  which is the argument of the model. The native \<^verbatim>\<open>import(url)\<close> is the host's: it
  does not come back to the loader's state.
\<close>

definition linker :: "host \<Rightarrow> string \<Rightarrow> string \<Rightarrow> loader_state \<Rightarrow> (error + nat) \<times> loader_state" where
  "linker h specifier parentModule_url s =
     (case resolve h specifier (Some parentModule_url) None of
        Inl e \<Rightarrow> (Inl e, s)
      | Inr r \<Rightarrow>
          if format r = ''commonjs'' \<or> format r = ''module'' then
            (case native_import h (url r) of
               Inl e \<Rightarrow> (Inl e, s)
             | Inr imported \<Rightarrow>
                 let link =
                       (if ToBoolean (get_prop imported ''default'')
                        then spread (get_prop imported ''default'') (JSObject imported)
                        else imported);
                     linkKeys = Object_keys link
                 in (case new_SyntheticModule linkKeys link s of (m, s') \<Rightarrow> (Inr m, s')))
          else if format r = ''dynamic'' then
            (case moduleMap s (url r) of
               Some cachedModule \<Rightarrow> (Inr cachedModule, s)
             | None \<Rightarrow>
                 (case transpileTypeScriptToModule h (url r) s of
                    (Inl e, s1) \<Rightarrow> (Inl e, s1)
                  | (Inr newModule, s1) \<Rightarrow>
                      (Inr newModule, s1\<lparr>moduleMap := (moduleMap s1)(url r \<mapsto> newModule)\<rparr>)))
          else (Inl (JSError ''INVALID Import type''), s))"

text \<open>Running the host's side of a link step against the linker.\<close>

primrec run_link :: "host \<Rightarrow> 'a linkprog \<Rightarrow> loader_state \<Rightarrow> 'a \<times> loader_state" where
  "run_link h (Done x) s = (x, s)"
| "run_link h (Call specifier parentModule_url k) s =
     (case linker h specifier parentModule_url s of (res, s') \<Rightarrow> run_link h (k res) s')"

text \<open>
  The hook \<^verbatim>\<open>importModuleDynamically(specifier, parentModule)\<close> that every module built
  by \<^verbatim>\<open>transpileTypeScriptToModule\<close> carries. Both kinds of module have a \<^verbatim>\<open>link\<close>
  method, so the test \<^verbatim>\<open>'link' in dynamicModule\<close> holds.
\<close>

definition importModuleDynamically ::
  "host \<Rightarrow> string \<Rightarrow> string \<Rightarrow> loader_state \<Rightarrow> (error + nat) \<times> loader_state" where
  "importModuleDynamically h specifier parentModule_url s =
     (case linker h specifier parentModule_url s of
        (Inl e, s1) \<Rightarrow> (Inl e, s1)
      | (Inr dynamicModule, s1) \<Rightarrow>
          (case run_link h (vm_link h dynamicModule) s1 of
             (Inl e, s2) \<Rightarrow> (Inl e, s2)
           | (Inr u, s2) \<Rightarrow> (Inr dynamicModule, s2)))"

subsection \<open>The entry point\<close>

text \<open>
  What \<^verbatim>\<open>dynamicInstantiate\<close> returns: \<^verbatim>\<open>{exports: [], execute}\<close>, where \<^verbatim>\<open>execute\<close>
  evaluates the module at the reference. An asynchronous function completes in one of
  three ways: it returns, it rejects with an error, or the process has exited with a
  status.
\<close>

record instantiated =
  exports :: "string list"
  execute :: nat

datatype completion = Returned instantiated | Rejected error | Exited int

text \<open>
  \<^verbatim>\<open>dynamicInstantiate(url)\<close>: the inner case is the \<^verbatim>\<open>try\<close> block, the outer one the
  \<^verbatim>\<open>catch\<close>.
\<close>

definition dynamicInstantiate :: "host \<Rightarrow> string \<Rightarrow> loader_state \<Rightarrow> completion \<times> loader_state" where
  "dynamicInstantiate h entry_url s =
     (case (case transpileTypeScriptToModule h entry_url s of
              (Inl err, s1) \<Rightarrow> (Inl err, s1)
            | (Inr sourceTextModule, s1) \<Rightarrow>
                (case run_link h (vm_link h sourceTextModule) s1 of
                   (Inl err, s2) \<Rightarrow> (Inl err, s2)
                 | (Inr u, s2) \<Rightarrow> (Inr \<lparr>exports = [], execute = sourceTextModule\<rparr>, s2))) of
        (Inl err, s') \<Rightarrow> (Exited 0, console_error_log err s')
      | (Inr result, s') \<Rightarrow> (Returned result, s'))"

subsection \<open>The states the loader can be in\<close>

text \<open>
  The host drives the loader through three doors: it calls \<^verbatim>\<open>dynamicInstantiate\<close>, it
  calls the linker as the callback of a link step, and it calls the
  \<^verbatim>\<open>importModuleDynamically\<close> hook of a module built here. A state is reachable when a
  sequence of such calls leads to it from the initial state.
\<close>

inductive reachable :: "host \<Rightarrow> loader_state \<Rightarrow> bool" for h :: host where
  reachable_initial: "reachable h initial_state"
| reachable_linker:
    "reachable h s \<Longrightarrow> linker h specifier parentModule_url s = (res, s') \<Longrightarrow> reachable h s'"
| reachable_instantiate:
    "reachable h s \<Longrightarrow> dynamicInstantiate h entry_url s = (out, s') \<Longrightarrow> reachable h s'"
| reachable_import:
    "reachable h s \<Longrightarrow> importModuleDynamically h specifier parentModule_url s = (res, s') \<Longrightarrow>
       reachable h s'"

text \<open>
  The cache is consistent when every entry refers to a \<^verbatim>\<open>SourceTextModule\<close> that has
  been allocated and whose \<^verbatim>\<open>url\<close> is the key of the entry.
\<close>

definition cache_consistent :: "loader_state \<Rightarrow> bool" where
  "cache_consistent s =
     (\<forall>u r. moduleMap s u = Some r \<longrightarrow>
        r < next_ref s \<and> (\<exists>m. heap s r = Some (SourceTextModule m) \<and> module_url m = u))"

subsection \<open>A sample host\<close>

text \<open>
  A host to run the loader on: a project directory \<^verbatim>\<open>/app\<close> with the files
  \<^verbatim>\<open>main.ts\<close>, \<^verbatim>\<open>dep.ts\<close>, \<^verbatim>\<open>view.tsx\<close> and \<^verbatim>\<open>lib.js\<close>. Every import is made from
  \<^verbatim>\<open>file:///app/main.ts\<close>, and \<open>sample_new_URL\<close> lists what \<^verbatim>\<open>new URL\<close> answers for the
  specifiers of the examples. The host has three parameters: the diagnostics the
  type checker reports for \<^verbatim>\<open>dep.ts\<close>, the files \<^verbatim>\<open>globby\<close> finds for \<^verbatim>\<open>./dep{.ts,.tsx}\<close>, and the
  namespace of \<^verbatim>\<open>lib.js\<close>. Its link step asks the linker for \<^verbatim>\<open>./dep.ts\<close>.

  The configuration of the project sets \<^verbatim>\<open>jsx\<close> to \<^verbatim>\<open>preserve\<close> (\<^verbatim>\<open>ts.JsxEmit.Preserve\<close>, the
  number 1), so the compiler accepts the JSX element of \<^verbatim>\<open>view.tsx\<close> and leaves it in
  its output. \<open>sample_transpile\<close> is that output for the files of the project, line
  ends left out: the type annotation of \<^verbatim>\<open>dep.ts\<close> is gone, the JSX element of
  \<^verbatim>\<open>view.tsx\<close> is still there. JSX is not JavaScript: the VM does not parse the output
  for \<^verbatim>\<open>view.tsx\<close>.
\<close>

definition sample_new_URL :: "string \<Rightarrow> string option \<Rightarrow> error + URL" where
  "sample_new_URL x base =
     (if x = ''file:///app/main.ts'' then
        Inr \<lparr>href = ''file:///app/main.ts'', protocol = ''file:'', pathname = ''/app/main.ts''\<rparr>
      else if x = ''file:///app/dep.ts'' \<or> x = ''./dep.ts'' then
        Inr \<lparr>href = ''file:///app/dep.ts'', protocol = ''file:'', pathname = ''/app/dep.ts''\<rparr>
      else if x = ''file:///app/dep'' \<or> x = ''./dep'' then
        Inr \<lparr>href = ''file:///app/dep'', protocol = ''file:'', pathname = ''/app/dep''\<rparr>
      else if x = ''file:///app/view.tsx'' then
        Inr \<lparr>href = ''file:///app/view.tsx'', protocol = ''file:'', pathname = ''/app/view.tsx''\<rparr>
      else if x = ''./lib.js'' then
        Inr \<lparr>href = ''file:///app/lib.js'', protocol = ''file:'', pathname = ''/app/lib.js''\<rparr>
      else if x = ''fs/promises'' then
        Inr \<lparr>href = ''file:///app/fs/promises'', protocol = ''file:'',
             pathname = ''/app/fs/promises''\<rparr>
      else Inl (HostError ''Invalid URL''))"

definition sample_extname :: "string \<Rightarrow> string" where
  "sample_extname p =
     (if p = ''/app/main.ts'' \<or> p = ''/app/dep.ts'' then ''.ts''
      else if p = ''/app/view.tsx'' then ''.tsx''
      else if p = ''/app/lib.js'' then ''.js''
      else [])"

definition sample_link :: "nat \<Rightarrow> (error + unit) linkprog" where
  "sample_link m =
     Call ''./dep.ts'' ''file:///app/main.ts''
       (\<lambda>res. case res of Inl e \<Rightarrow> Done (Inl e) | Inr dep \<Rightarrow> Done (Inr ()))"

definition sample_transpile :: "string \<Rightarrow> string" where
  "sample_transpile src =
     (if src = ''export const x: number = 1'' then ''export const x = 1;''
      else if src = ''export const v = <b />'' then ''export const v = <b />;''
      else src)"

definition sample_host :: "diagnostic list \<Rightarrow> string list \<Rightarrow> props \<Rightarrow> host" where
  \<open>sample_host diags found lib =
     \<lparr>baseURL = ''file:///app'',
      new_URL = sample_new_URL,
      path_extname = sample_extname,
      path_dirname = (\<lambda>p. ''/app''),
      fileURLToPath =
        (\<lambda>u. if startsWith u ''file://'' then Inr (drop 7 u)
              else Inl (HostError ''The URL must be of scheme file'')),
      globby = (\<lambda>pattern cwd. if pattern = ''./dep{.ts,.tsx}'' \<and> cwd = ''/app'' then found else []),
      fs_readFile =
        (\<lambda>u. if u = ''file:///app/main.ts'' then Inr ''import { x } from "./dep.ts"''
              else if u = ''file:///app/dep.ts'' then Inr ''export const x: number = 1''
              else if u = ''file:///app/view.tsx'' then Inr ''export const v = <b />''
              else Inl (HostError ''ENOENT'')),
      getTSConfig = (\<lambda>root dir. Inr (JSObject [(''jsx'', JSNumber 1)])),
      ts_getPreEmitDiagnostics = (\<lambda>p. if rootNames p = [''/app/dep.ts''] then diags else []),
      ts_transpileModule = (\<lambda>src opts. sample_transpile src),
      native_import =
        (\<lambda>u. if u = ''file:///app/lib.js'' then Inr lib else Inl (HostError ''Cannot find module'')),
      vm_parse =
        (\<lambda>src. if src = ''export const v = <b />;'' then Some ''Unexpected token'' else None),
      vm_default_url = (\<lambda>r. ''vm:module('' @ nat_to_string r @ '')''),
      vm_link = sample_link\<rparr>\<close>

section \<open>Properties\<close>

subsection \<open>What a call changes\<close>

text \<open>
  A call of \<^verbatim>\<open>transpileTypeScriptToModule\<close> never touches the cache or the console. It
  adds its argument to the history. When it fails it has built no object; when it
  succeeds the module it returns is the next reference, a new \<^verbatim>\<open>SourceTextModule\<close>
  whose \<^verbatim>\<open>url\<close> is the argument.
\<close>

lemma transpile_effect:
  assumes "transpileTypeScriptToModule h u s = (res, s')"
  shows "moduleMap s' = moduleMap s \<and> transpile_calls s' = transpile_calls s @ [u] \<and>
         console_error s' = console_error s \<and>
         (case res of
            Inl e \<Rightarrow> heap s' = heap s \<and> next_ref s' = next_ref s
          | Inr m \<Rightarrow> m = next_ref s \<and> next_ref s' = Suc m \<and>
              (\<exists>js. heap s' = (heap s)(m \<mapsto> SourceTextModule \<lparr>sourceText = js, module_url = u\<rparr>)))"
  using assms
  by (auto simp: transpileTypeScriptToModule_def Let_def new_SourceTextModule_def new_object_def
      set_module_url_def setRootPath_def split: sum.splits if_splits prod.splits option.splits)

text \<open>The two branches of the linker, once the format is known.\<close>

lemma linker_native:
  assumes "resolve h specifier (Some parent) None = Inr r"
    and "format r = ''commonjs'' \<or> format r = ''module''"
    and "native_import h (url r) = Inr imported"
  shows "linker h specifier parent s =
           (let link = (if ToBoolean (get_prop imported ''default'')
                        then spread (get_prop imported ''default'') (JSObject imported)
                        else imported)
            in (Inr (next_ref s),
                s\<lparr>heap := (heap s)(next_ref s \<mapsto>
                       SyntheticModule \<lparr>exportNames = Object_keys link, link_object = link\<rparr>),
                  next_ref := Suc (next_ref s)\<rparr>))"
  using assms by (auto simp: linker_def Let_def new_SyntheticModule_def new_object_def)

lemma linker_dynamic:
  assumes "resolve h specifier (Some parent) None = Inr r" and "format r = ''dynamic''"
  shows "linker h specifier parent s =
           (case moduleMap s (url r) of
              Some cachedModule \<Rightarrow> (Inr cachedModule, s)
            | None \<Rightarrow>
                (case transpileTypeScriptToModule h (url r) s of
                   (Inl e, s1) \<Rightarrow> (Inl e, s1)
                 | (Inr newModule, s1) \<Rightarrow>
                     (Inr newModule, s1\<lparr>moduleMap := (moduleMap s1)(url r \<mapsto> newModule)\<rparr>)))"
  using assms by (simp add: linker_def)

text \<open>
  Nothing removes an entry from the cache: a link request, and so a whole link step
  of the host, keeps every entry, and does not compile the URL of an entry again.
\<close>

lemma linker_keeps_entry:
  assumes "moduleMap s u = Some m" and "linker h specifier parent s = (res, s')"
  shows "moduleMap s' u = Some m \<and>
         count_list (transpile_calls s') u = count_list (transpile_calls s) u"
proof (cases "resolve h specifier (Some parent) None")
  case (Inl e)
  with assms show ?thesis by (simp add: linker_def)
next
  case (Inr r)
  consider (native) "format r = ''commonjs'' \<or> format r = ''module''"
    | (dynamic) "format r = ''dynamic''"
    | (other) "\<not> (format r = ''commonjs'' \<or> format r = ''module'')" "format r \<noteq> ''dynamic''"
    by blast
  then show ?thesis
  proof cases
    case native
    show ?thesis
    proof (cases "native_import h (url r)")
      case (Inl e)
      with assms Inr native show ?thesis by (simp add: linker_def)
    next
      case (Inr imported)
      from assms linker_native[OF \<open>resolve h specifier (Some parent) None = Inr r\<close> native Inr, of s]
      show ?thesis by (auto simp: Let_def)
    qed
  next
    case dynamic
    note branch = linker_dynamic[OF Inr dynamic, of s]
    show ?thesis
    proof (cases "moduleMap s (url r)")
      case (Some c)
      with assms branch show ?thesis by simp
    next
      case None
      with assms(1) have other: "url r \<noteq> u" by auto
      obtain res1 s1 where t: "transpileTypeScriptToModule h (url r) s = (res1, s1)"
        by (cases "transpileTypeScriptToModule h (url r) s")
      from transpile_effect[OF t] have
        "moduleMap s1 = moduleMap s" "transpile_calls s1 = transpile_calls s @ [url r]"
        by simp_all
      with assms branch None t other show ?thesis
        by (cases res1) auto
    qed
  next
    case other
    with assms Inr show ?thesis by (simp add: linker_def)
  qed
qed

lemma run_link_keeps_entry:
  "moduleMap s u = Some m \<Longrightarrow> run_link h p s = (res, s') \<Longrightarrow>
     moduleMap s' u = Some m \<and>
     count_list (transpile_calls s') u = count_list (transpile_calls s) u"
proof (induction p arbitrary: s res s')
  case (Done x)
  then show ?case by simp
next
  case (Call specifier parent k)
  obtain r1 s1 where l: "linker h specifier parent s = (r1, s1)"
    by (cases "linker h specifier parent s")
  from linker_keeps_entry[OF Call.prems(1) l]
  have kept: "moduleMap s1 u = Some m"
    and same: "count_list (transpile_calls s1) u = count_list (transpile_calls s) u"
    by simp_all
  from Call.prems(2) l have "run_link h (k r1) s1 = (res, s')" by simp
  from Call.IH[OF rangeI kept this] same show ?case by simp
qed

subsection \<open>The path test\<close>

text \<open>
  What the pattern of \<^verbatim>\<open>modTester\<close> accepts: a slash after at most \<open>n\<close> characters that
  are not line terminators. Which characters they are does not matter otherwise.
\<close>

lemma dot_upto_slash_iff:
  "dot_upto_slash n s \<longleftrightarrow>
     (\<exists>pre rest. s = pre @ CHR ''/'' # rest \<and> length pre \<le> n \<and>
        (\<forall>c \<in> set pre. \<not> is_line_terminator c))"
proof (induction n s rule: dot_upto_slash.induct)
  case (1 n)
  then show ?case by simp
next
  case (2 c cs)
  then show ?case by auto
next
  case (3 n c cs)
  show ?case
  proof
    assume "dot_upto_slash (Suc n) (c # cs)"
    then consider "c = CHR ''/''" | "\<not> is_line_terminator c" "dot_upto_slash n cs" by auto
    then show "\<exists>pre rest. c # cs = pre @ CHR ''/'' # rest \<and> length pre \<le> Suc n \<and>
        (\<forall>c \<in> set pre. \<not> is_line_terminator c)"
    proof cases
      case 1
      then have "c # cs = [] @ CHR ''/'' # cs" by simp
      then show ?thesis by (metis empty_iff le0 list.set(1) list.size(3))
    next
      case 2
      with 3 obtain pre rest where "cs = pre @ CHR ''/'' # rest" "length pre \<le> n"
        "\<forall>c \<in> set pre. \<not> is_line_terminator c" by auto
      with 2(1) have "c # cs = (c # pre) @ CHR ''/'' # rest \<and> length (c # pre) \<le> Suc n \<and>
        (\<forall>x \<in> set (c # pre). \<not> is_line_terminator x)" by simp
      then show ?thesis by blast
    qed
  next
    assume "\<exists>pre rest. c # cs = pre @ CHR ''/'' # rest \<and> length pre \<le> Suc n \<and>
        (\<forall>c \<in> set pre. \<not> is_line_terminator c)"
    then obtain pre rest where p: "c # cs = pre @ CHR ''/'' # rest" "length pre \<le> Suc n"
        "\<forall>c \<in> set pre. \<not> is_line_terminator c" by blast
    show "dot_upto_slash (Suc n) (c # cs)"
    proof (cases pre)
      case Nil
      with p show ?thesis by simp
    next
      case (Cons a pre')
      with p have "cs = pre' @ CHR ''/'' # rest" "length pre' \<le> n" "\<not> is_line_terminator c"
        "\<forall>c \<in> set pre'. \<not> is_line_terminator c" by auto
      with 3 show ?thesis by auto
    qed
  qed
qed

text \<open>A specifier that fails the test and is no \<^verbatim>\<open>file:\<close> URL is a bare reference.\<close>

lemma resolve_bare:
  assumes "\<not> modTester_test specifier" and "\<not> startsWith specifier ''file:''"
  shows "resolve h specifier (Some p) (Some f) = f specifier p \<and>
         resolve h specifier (Some p) None = Inr \<lparr>format = ''module'', url = specifier\<rparr>"
  using assms by (simp add: resolve_def)

text \<open>
  The pattern handed to \<^verbatim>\<open>globby\<close>, and what \<^verbatim>\<open>resolve\<close> answers in the inference branch
  from the files that \<^verbatim>\<open>globby\<close> finds for it: one file is taken, none or several leave
  the URL as it was resolved. A fallback resolver plays no part.
\<close>

lemma glob_pattern: "specifier @ ''{'' @ join '','' TS_EXTENSIONS @ ''}'' = specifier @ ''{.ts,.tsx}''"
  by (simp add: TS_EXTENSIONS_def)

lemma resolve_extension_inference:
  assumes "modTester_test specifier \<or> startsWith specifier ''file:''"
    and "new_URL h specifier (Some parentModuleURL) = Inr resolved"
    and "path_extname h (pathname resolved) = []"
    and "protocol resolved = ''file:''"
    and "fileURLToPath h parentModuleURL = Inr parentPath"
    and "globby h (specifier @ ''{.ts,.tsx}'') (path_dirname h parentPath) = possibleFiles"
  shows "(\<forall>file. possibleFiles = [file] \<longrightarrow>
            resolve h specifier (Some parentModuleURL) fallback =
              Inr \<lparr>format = ''dynamic'', url = ''file://'' @ file\<rparr>) \<and>
         (length possibleFiles \<noteq> 1 \<longrightarrow>
            resolve h specifier (Some parentModuleURL) fallback =
              Inr \<lparr>format = ''module'', url = href resolved\<rparr>)"
  using assms by (auto simp: resolve_def Let_def TS_EXTENSIONS_def)

subsection \<open>Object spread\<close>

text \<open>
  Copying the properties of a source over a target gives the target's properties
  overridden by the source's.
\<close>

lemma map_of_absent: "k \<notin> fst ` set ps \<Longrightarrow> map_of ps k = None"
  by (simp add: map_of_eq_None_iff)

lemma map_of_present: "map_of ps k = Some v \<Longrightarrow> k \<in> fst ` set ps"
  by (metis map_of_absent option.distinct(1))

lemma copy_keys_map_of:
  "set ks \<subseteq> fst ` set src \<Longrightarrow>
     map_of (foldl (\<lambda>t k. AList.update k (get_prop src k) t) t ks) = map_of t ++ (map_of src |` set ks)"
proof (induction ks arbitrary: t)
  case Nil
  then show ?case by simp
next
  case (Cons k ks)
  then obtain v where v: "map_of src k = Some v"
    by (metis list.set_intros(1) subsetD weak_map_of_SomeI domIff dom_map_of_conv_image_fst not_Some_eq)
  then have g: "get_prop src k = v" by (simp add: get_prop_def)
  from Cons have "map_of (foldl (\<lambda>t k. AList.update k (get_prop src k) t) (AList.update k v t) ks) =
      map_of (AList.update k v t) ++ (map_of src |` set ks)" by simp
  also have "\<dots> = map_of t ++ (map_of src |` set (k # ks))"
    using v by (auto simp: update_conv' fun_eq_iff map_add_def restrict_map_def split: option.splits)
  finally show ?case using g by simp
qed

lemma copy_keys_dom:
  "fst ` set (foldl (\<lambda>t k. AList.update k (f k) t) t ks) = fst ` set t \<union> set ks"
  by (induction ks arbitrary: t) (auto simp: dom_update)

lemma map_of_CopyDataProperties:
  "map_of (CopyDataProperties t v) = map_of t ++ map_of (own_enumerable v)"
proof -
  have "map_of (own_enumerable v) |` set (map fst (own_enumerable v)) = map_of (own_enumerable v)"
  proof
    fix x show "(map_of (own_enumerable v) |` set (map fst (own_enumerable v))) x = map_of (own_enumerable v) x"
      by (cases "x \<in> fst ` set (own_enumerable v)") (simp_all add: map_of_absent)
  qed
  then show ?thesis
    using copy_keys_map_of[of "map fst (own_enumerable v)" "own_enumerable v" t]
    by (simp add: CopyDataProperties_def Object_keys_def Let_def)
qed

lemma keys_CopyDataProperties:
  "set (Object_keys (CopyDataProperties t v)) = set (Object_keys t) \<union> set (Object_keys (own_enumerable v))"
  by (simp add: CopyDataProperties_def Object_keys_def copy_keys_dom Let_def)

lemma keys_spread:
  "set (Object_keys (spread a (JSObject b))) = set (Object_keys b) \<union> set (Object_keys (own_enumerable a))"
proof -
  have "Object_keys [] = []" by (simp add: Object_keys_def)
  then show ?thesis by (auto simp: spread_def keys_CopyDataProperties)
qed

lemma get_prop_spread:
  "get_prop (spread a (JSObject b)) k =
     (if k \<in> set (Object_keys b) then get_prop b k else get_prop (own_enumerable a) k)"
proof (cases "map_of b k")
  case None
  then have "k \<notin> set (Object_keys b)"
    by (simp add: Object_keys_def map_of_eq_None_iff)
  with None show ?thesis
    by (simp add: spread_def get_prop_def map_of_CopyDataProperties map_add_def)
next
  case (Some v)
  then have "k \<in> set (Object_keys b)"
    by (auto simp: Object_keys_def dest: map_of_present)
  with Some show ?thesis
    by (simp add: spread_def get_prop_def map_of_CopyDataProperties map_add_def)
qed

lemma falsy_no_props: "\<not> ToBoolean v \<Longrightarrow> own_enumerable v = []"
  by (cases v) simp_all

lemma get_prop_absent: "k \<notin> set (Object_keys ps) \<Longrightarrow> get_prop ps k = JSUndefined"
  by (simp add: get_prop_def Object_keys_def map_of_absent)

text \<open>
  The object \<^verbatim>\<open>link\<close> of the linker, whatever the default export is. A falsy value
  has no property to copy, so the description of the keys needs no case distinction.
\<close>

lemma flattened_bag:
  fixes imported :: props
  defines "link \<equiv> (if ToBoolean (get_prop imported ''default'')
                     then spread (get_prop imported ''default'') (JSObject imported)
                     else imported)"
  shows "set (Object_keys link) =
           set (Object_keys imported) \<union>
           set (Object_keys (own_enumerable (get_prop imported ''default'')))"
    and "k \<in> set (Object_keys imported) \<Longrightarrow> get_prop link k = get_prop imported k"
    and "k \<notin> set (Object_keys imported) \<Longrightarrow>
           get_prop link k = get_prop (own_enumerable (get_prop imported ''default'')) k"
proof -
  have e: "Object_keys [] = []" "get_prop [] k = JSUndefined"
    by (simp_all add: Object_keys_def get_prop_def)
  show "set (Object_keys link) =
           set (Object_keys imported) \<union>
           set (Object_keys (own_enumerable (get_prop imported ''default'')))"
    by (cases "ToBoolean (get_prop imported ''default'')")
      (simp_all add: link_def keys_spread falsy_no_props e)
  show "k \<in> set (Object_keys imported) \<Longrightarrow> get_prop link k = get_prop imported k"
    by (simp add: link_def get_prop_spread)
  show "k \<notin> set (Object_keys imported) \<Longrightarrow>
           get_prop link k = get_prop (own_enumerable (get_prop imported ''default'')) k"
    by (cases "ToBoolean (get_prop imported ''default'')")
      (simp_all add: link_def get_prop_spread falsy_no_props e get_prop_absent)
qed

subsection \<open>The cache stays consistent\<close>

text \<open>
  Allocation only uses references that no entry of the cache holds, so every step of
  the loader keeps the cache consistent; by induction, so does a link step of the host,
  and every reachable state is consistent.
\<close>

lemma new_object_preserves_consistent:
  assumes "new_object v s = (r, s')" and "cache_consistent s"
  shows "cache_consistent s'"
  unfolding cache_consistent_def
proof (intro allI impI)
  fix u k assume "moduleMap s' u = Some k"
  with assms(1) have "moduleMap s u = Some k" by (auto simp: new_object_def)
  with assms(2) have "k < next_ref s" and "\<exists>m. heap s k = Some (SourceTextModule m) \<and> module_url m = u"
    by (auto simp: cache_consistent_def)
  with assms(1) show "k < next_ref s' \<and> (\<exists>m. heap s' k = Some (SourceTextModule m) \<and> module_url m = u)"
    by (auto simp: new_object_def)
qed

lemma transpile_preserves_consistent:
  assumes "transpileTypeScriptToModule h u s = (res, s')" and "cache_consistent s"
  shows "cache_consistent s'"
proof (cases res)
  case (Inl e)
  with transpile_effect[OF assms(1)] assms(2) show ?thesis
    by (simp add: cache_consistent_def)
next
  case (Inr m)
  with transpile_effect[OF assms(1)] obtain js where
    mm: "moduleMap s' = moduleMap s" and m: "m = next_ref s" and n: "next_ref s' = Suc m" and
    hp: "heap s' = (heap s)(m \<mapsto> SourceTextModule \<lparr>sourceText = js, module_url = u\<rparr>)"
    by auto
  show ?thesis
    unfolding cache_consistent_def
  proof (intro allI impI)
    fix u' r assume "moduleMap s' u' = Some r"
    with mm assms(2) have lt: "r < next_ref s" and
      ex: "\<exists>m. heap s r = Some (SourceTextModule m) \<and> module_url m = u'"
      by (auto simp: cache_consistent_def)
    from lt m have "r \<noteq> m" by simp
    with ex hp lt m n show "r < next_ref s' \<and> (\<exists>m. heap s' r = Some (SourceTextModule m) \<and> module_url m = u')"
      by simp
  qed
qed

lemma linker_preserves_consistent:
  assumes "linker h specifier parent s = (res, s')" and "cache_consistent s"
  shows "cache_consistent s'"
proof (cases "resolve h specifier (Some parent) None")
  case (Inl e)
  with assms show ?thesis by (simp add: linker_def)
next
  case (Inr r)
  consider (native) "format r = ''commonjs'' \<or> format r = ''module''"
    | (dynamic) "\<not> (format r = ''commonjs'' \<or> format r = ''module'')" "format r = ''dynamic''"
    | (other) "\<not> (format r = ''commonjs'' \<or> format r = ''module'')" "format r \<noteq> ''dynamic''"
    by blast
  then show ?thesis
  proof cases
    case native
    show ?thesis
    proof (cases "native_import h (url r)")
      case (Inl e)
      with assms Inr native show ?thesis by (simp add: linker_def)
    next
      case (Inr imported)
      from linker_native[OF \<open>resolve h specifier (Some parent) None = Inr r\<close> native Inr, of s] assms(1)
      obtain v where "new_object v s = (next_ref s, s')"
        by (auto simp: Let_def new_object_def)
      with assms(2) show ?thesis
        by (rule new_object_preserves_consistent[rotated])
    qed
  next
    case dynamic
    show ?thesis
    proof (cases "moduleMap s (url r)")
      case (Some c)
      with assms Inr dynamic show ?thesis by (simp add: linker_def)
    next
      case None
      obtain res1 s1 where t: "transpileTypeScriptToModule h (url r) s = (res1, s1)"
        by (cases "transpileTypeScriptToModule h (url r) s")
      from transpile_preserves_consistent[OF t assms(2)] have c1: "cache_consistent s1" .
      show ?thesis
      proof (cases res1)
        case (Inl e)
        with assms Inr dynamic None t c1 show ?thesis by (simp add: linker_def)
      next
        case (Inr m)
        with transpile_effect[OF t] obtain js where
          m: "m = next_ref s" and n: "next_ref s1 = Suc m" and
          hp: "heap s1 = (heap s)(m \<mapsto> SourceTextModule \<lparr>sourceText = js, module_url = url r\<rparr>)"
          by auto
        from assms \<open>resolve h specifier (Some parent) None = Inr r\<close> dynamic None t Inr
        have s': "s' = s1\<lparr>moduleMap := (moduleMap s1)(url r \<mapsto> m)\<rparr>"
          by (simp add: linker_def)
        from c1 n hp show ?thesis
          unfolding s' cache_consistent_def by auto
      qed
    qed
  next
    case other
    with assms Inr show ?thesis by (simp add: linker_def)
  qed
qed

lemma run_link_preserves_consistent:
  "run_link h p s = (res, s') \<Longrightarrow> cache_consistent s \<Longrightarrow> cache_consistent s'"
proof (induction p arbitrary: s res s')
  case (Done x)
  then show ?case by simp
next
  case (Call specifier parent k)
  obtain r1 s1 where l: "linker h specifier parent s = (r1, s1)"
    by (cases "linker h specifier parent s")
  with Call.prems have "run_link h (k r1) s1 = (res, s')" by simp
  moreover from linker_preserves_consistent[OF l Call.prems(2)] have "cache_consistent s1" .
  ultimately show ?case by (rule Call.IH[OF rangeI])
qed

lemma dynamicInstantiate_preserves_consistent:
  assumes "dynamicInstantiate h u s = (out, s')" and "cache_consistent s"
  shows "cache_consistent s'"
proof -
  obtain res s1 where t: "transpileTypeScriptToModule h u s = (res, s1)"
    by (cases "transpileTypeScriptToModule h u s")
  from transpile_preserves_consistent[OF t assms(2)] have c1: "cache_consistent s1" .
  have log: "cache_consistent (console_error_log e x) = cache_consistent x" for e x
    by (simp add: cache_consistent_def console_error_log_def)
  show ?thesis
  proof (cases res)
    case (Inl e)
    with assms(1) t c1 show ?thesis by (auto simp: dynamicInstantiate_def log)
  next
    case (Inr m)
    obtain res2 s2 where l: "run_link h (vm_link h m) s1 = (res2, s2)"
      by (cases "run_link h (vm_link h m) s1")
    from run_link_preserves_consistent[OF l c1] have "cache_consistent s2" .
    with assms(1) t Inr l show ?thesis
      by (cases res2) (auto simp: dynamicInstantiate_def log)
  qed
qed

lemma importModuleDynamically_preserves_consistent:
  assumes "importModuleDynamically h specifier parent s = (res, s')" and "cache_consistent s"
  shows "cache_consistent s'"
proof -
  obtain r1 s1 where l: "linker h specifier parent s = (r1, s1)"
    by (cases "linker h specifier parent s")
  from linker_preserves_consistent[OF l assms(2)] have c1: "cache_consistent s1" .
  show ?thesis
  proof (cases r1)
    case (Inl e)
    with assms(1) l c1 show ?thesis by (auto simp: importModuleDynamically_def)
  next
    case (Inr m)
    obtain r2 s2 where k: "run_link h (vm_link h m) s1 = (r2, s2)"
      by (cases "run_link h (vm_link h m) s1")
    from run_link_preserves_consistent[OF k c1] have "cache_consistent s2" .
    with assms(1) l Inr k show ?thesis
      by (cases r2) (auto simp: importModuleDynamically_def)
  qed
qed

lemma reachable_consistent: "reachable h s \<Longrightarrow> cache_consistent s"
proof (induction rule: reachable.induct)
  case reachable_initial
  show ?case by (simp add: cache_consistent_def initial_state_def)
next
  case (reachable_linker s specifier parentModule_url res s')
  then show ?case by (blast intro: linker_preserves_consistent)
next
  case (reachable_instantiate s entry_url out s')
  then show ?case by (blast intro: dynamicInstantiate_preserves_consistent)
next
  case (reachable_import s specifier parentModule_url res s')
  then show ?case by (blast intro: importModuleDynamically_preserves_consistent)
qed

subsection \<open>The sample host at work\<close>

lemmas sample_simps = sample_host_def sample_new_URL_def sample_extname_def sample_link_def
  sample_transpile_def startsWith_def modTester_test_def is_line_terminator_def TS_EXTENSIONS_def

lemma sample_resolve_dep_ts:
  "resolve (sample_host diags found lib) ''./dep.ts'' (Some ''file:///app/main.ts'') None =
     Inr \<lparr>format = ''dynamic'', url = ''file:///app/dep.ts''\<rparr>"
  by (simp add: resolve_def sample_simps)

lemma sample_resolve_dep_url:
  "resolve (sample_host diags found lib) ''file:///app/dep.ts'' (Some ''file:///app/main.ts'') None =
     Inr \<lparr>format = ''dynamic'', url = ''file:///app/dep.ts''\<rparr>"
  by (simp add: resolve_def sample_simps)

lemma sample_resolve_lib:
  "resolve (sample_host diags found lib) ''./lib.js'' (Some ''file:///app/main.ts'') None =
     Inr \<lparr>format = ''module'', url = ''file:///app/lib.js''\<rparr>"
  by (simp add: resolve_def sample_simps)

lemma sample_transpile_ok:
  "fst (transpileTypeScriptToModule (sample_host [] found lib) ''file:///app/dep.ts'' s) = Inr (next_ref s)"
  by (simp add: transpileTypeScriptToModule_def sample_simps Let_def new_SourceTextModule_def
      new_object_def setRootPath_def createProgram_def split: prod.splits)

lemma sample_transpile_fails:
  "fst (transpileTypeScriptToModule (sample_host (d # ds) found lib) ''file:///app/dep.ts'' s) =
     Inl (TSError (d # ds))"
  by (simp add: transpileTypeScriptToModule_def sample_simps Let_def createTSError_def
      createProgram_def)

lemma sample_transpile_main_ok:
  "fst (transpileTypeScriptToModule (sample_host diags found lib) ''file:///app/main.ts'' s) =
     Inr (next_ref s)"
  by (simp add: transpileTypeScriptToModule_def sample_simps Let_def new_SourceTextModule_def
      new_object_def setRootPath_def createProgram_def split: prod.splits)

lemma sample_linker_dep_fails:
  "moduleMap s ''file:///app/dep.ts'' = None \<Longrightarrow>
   fst (linker (sample_host (d # ds) found lib) ''./dep.ts'' ''file:///app/main.ts'' s) =
     Inl (TSError (d # ds))"
  using sample_transpile_fails[of d ds found lib s]
  by (cases "transpileTypeScriptToModule (sample_host (d # ds) found lib) ''file:///app/dep.ts'' s")
    (simp add: linker_dynamic[OF sample_resolve_dep_ts])

lemma sample_linker_dep_ok:
  "moduleMap s ''file:///app/dep.ts'' = None \<Longrightarrow>
   fst (linker (sample_host [] found lib) ''./dep.ts'' ''file:///app/main.ts'' s) = Inr (next_ref s)"
  using sample_transpile_ok[of found lib s]
  by (cases "transpileTypeScriptToModule (sample_host [] found lib) ''file:///app/dep.ts'' s")
    (simp add: linker_dynamic[OF sample_resolve_dep_ts])

lemma sample_linker_lib:
  "linker (sample_host diags found lib) ''./lib.js'' ''file:///app/main.ts'' s =
     (let link = (if ToBoolean (get_prop lib ''default'')
                  then spread (get_prop lib ''default'') (JSObject lib)
                  else lib)
      in (Inr (next_ref s),
          s\<lparr>heap := (heap s)(next_ref s \<mapsto>
                 SyntheticModule \<lparr>exportNames = Object_keys link, link_object = link\<rparr>),
            next_ref := Suc (next_ref s)\<rparr>))"
  by (rule linker_native[OF sample_resolve_lib]) (simp_all add: sample_host_def)

lemma sample_run_link:
  "fst (linker (sample_host diags found lib) ''./dep.ts'' ''file:///app/main.ts'' s) = Inl e \<Longrightarrow>
   run_link (sample_host diags found lib) (vm_link (sample_host diags found lib) m) s =
     (Inl e, snd (linker (sample_host diags found lib) ''./dep.ts'' ''file:///app/main.ts'' s))"
proof -
  assume failed: "fst (linker (sample_host diags found lib) ''./dep.ts'' ''file:///app/main.ts'' s) = Inl e"
  have "vm_link (sample_host diags found lib) m = sample_link m"
    by (simp add: sample_host_def)
  with failed show ?thesis
    by (cases "linker (sample_host diags found lib) ''./dep.ts'' ''file:///app/main.ts'' s")
      (simp add: sample_link_def)
qed

section \<open>The claims\<close>

text \<open>
  \<^bold>\<open>Claim C1\<close> (idempotent caching). Take two link requests, one after the other, whose
  specifiers resolve to the same typed-source URL (format \<^verbatim>\<open>dynamic\<close>). If the first
  returns a module, then the second returns the very same module object, the same
  reference, and leaves the state as it is. Over the two calls
  \<^verbatim>\<open>transpileTypeScriptToModule\<close> has run at most once: the history has grown by
  nothing (the first call was a hit) or by that one URL (it was a miss). A first
  request whose build fails returns no module at all; that case is claim C6.
\<close>

theorem linker_idempotent_caching:
  assumes "resolve h specifier (Some parent) None = Inr r" and "format r = ''dynamic''"
    and "resolve h specifier' (Some parent') None = Inr r'" and "format r' = ''dynamic''"
    and "url r' = url r"
    and "linker h specifier parent s = (Inr m, s1)"
  shows "linker h specifier' parent' s1 = (Inr m, s1) \<and>
         (transpile_calls s1 = transpile_calls s \<or> transpile_calls s1 = transpile_calls s @ [url r])"
proof (cases "moduleMap s (url r)")
  case (Some c)
  with assms(6) linker_dynamic[OF assms(1,2), of s] have "c = m" and "s1 = s" by simp_all
  with Some linker_dynamic[OF assms(3,4), of s1] assms(5) show ?thesis by simp
next
  case None
  obtain res t where t: "transpileTypeScriptToModule h (url r) s = (res, t)"
    by (cases "transpileTypeScriptToModule h (url r) s")
  with None assms(6) linker_dynamic[OF assms(1,2), of s]
  have res: "res = Inr m" and s1: "s1 = t\<lparr>moduleMap := (moduleMap t)(url r \<mapsto> m)\<rparr>"
    by (auto split: sum.splits)
  from transpile_effect[OF t] have "transpile_calls t = transpile_calls s @ [url r]" by simp
  with s1 have calls: "transpile_calls s1 = transpile_calls s @ [url r]" by simp
  from s1 have "moduleMap s1 (url r') = Some m" using assms(5) by simp
  with linker_dynamic[OF assms(3,4), of s1] calls show ?thesis by simp
qed

text \<open>
  On the sample host: \<^verbatim>\<open>./dep.ts\<close> and \<^verbatim>\<open>file:///app/dep.ts\<close> resolve to the same URL; the
  first request builds module 0, the second returns module 0 and changes nothing, and
  the compiler has run once.
\<close>

theorem linker_idempotent_caching_witness:
  "fst (linker (sample_host [] [] []) ''./dep.ts'' ''file:///app/main.ts'' initial_state) = Inr 0 \<and>
   linker (sample_host [] [] []) ''file:///app/dep.ts'' ''file:///app/main.ts''
       (snd (linker (sample_host [] [] []) ''./dep.ts'' ''file:///app/main.ts'' initial_state)) =
     (Inr 0, snd (linker (sample_host [] [] []) ''./dep.ts'' ''file:///app/main.ts'' initial_state)) \<and>
   transpile_calls (snd (linker (sample_host [] [] []) ''./dep.ts'' ''file:///app/main.ts'' initial_state)) =
     [''file:///app/dep.ts'']"
proof -
  let ?h = "sample_host [] [] []"
  let ?s1 = "snd (linker ?h ''./dep.ts'' ''file:///app/main.ts'' initial_state)"
  have first: "fst (linker ?h ''./dep.ts'' ''file:///app/main.ts'' initial_state) = Inr 0"
    using sample_transpile_ok[of "[]" "[]" initial_state]
    by (cases "transpileTypeScriptToModule ?h ''file:///app/dep.ts'' initial_state")
      (simp add: linker_dynamic[OF sample_resolve_dep_ts] initial_state_def)
  then have run: "linker ?h ''./dep.ts'' ''file:///app/main.ts'' initial_state = (Inr 0, ?s1)"
    by (simp add: prod_eq_iff)
  have "linker ?h ''file:///app/dep.ts'' ''file:///app/main.ts'' ?s1 = (Inr 0, ?s1) \<and>
        (transpile_calls ?s1 = transpile_calls initial_state \<or>
         transpile_calls ?s1 = transpile_calls initial_state @
           [url \<lparr>format = ''dynamic'', url = ''file:///app/dep.ts''\<rparr>])"
    by (rule linker_idempotent_caching[OF sample_resolve_dep_ts _ sample_resolve_dep_url _ _ run]) simp_all
  moreover have "transpile_calls initial_state = []"
    by (simp add: initial_state_def)
  moreover have "transpile_calls ?s1 \<noteq> []"
  proof (cases "transpileTypeScriptToModule ?h ''file:///app/dep.ts'' initial_state")
    case (Pair res t)
    with transpile_effect[OF Pair] show ?thesis
      by (cases res) (simp_all add: linker_dynamic[OF sample_resolve_dep_ts] initial_state_def)
  qed
  ultimately show ?thesis using first by simp
qed

text \<open>
  \<^bold>\<open>Claim C2\<close> says that a specifier which starts with none of \<^verbatim>\<open>./\<close>, \<^verbatim>\<open>../\<close>, \<^verbatim>\<open>/\<close> and
  is no \<^verbatim>\<open>file:\<close> URL is a bare package reference: \<^verbatim>\<open>resolve\<close> hands it to the fallback
  resolver when there is one and returns it unchanged, with format \<^verbatim>\<open>module\<close>,
  otherwise. The code tests the specifier with the pattern \<^verbatim>\<open>^.{0,2}[/]\<close>, whose dot
  is not escaped and matches any character: a specifier with a slash among its first
  three characters passes for a path. The specifier \<^verbatim>\<open>fs/promises\<close> starts with none
  of the four prefixes, and yet \<^verbatim>\<open>resolve\<close> neither consults the fallback nor returns
  the specifier: it resolves it against the referrer, to \<^verbatim>\<open>file:///app/fs/promises\<close>.
\<close>

theorem resolve_fs_promises_not_bare:
  "\<not> startsWith ''fs/promises'' ''./'' \<and> \<not> startsWith ''fs/promises'' ''../'' \<and>
   \<not> startsWith ''fs/promises'' ''/'' \<and> \<not> startsWith ''fs/promises'' ''file:'' \<and>
   modTester_test ''fs/promises'' \<and>
   (\<forall>h referrer fallback.
      resolve h ''fs/promises'' referrer (Some fallback) = resolve h ''fs/promises'' referrer None) \<and>
   resolve (sample_host [] [] []) ''fs/promises'' (Some ''file:///app/main.ts'') None =
     Inr \<lparr>format = ''module'', url = ''file:///app/fs/promises''\<rparr> \<and>
   resolve (sample_host [] [] []) ''fs/promises'' (Some ''file:///app/main.ts'')
       (Some (\<lambda>specifier referrer. Inr \<lparr>format = ''builtin'', url = specifier\<rparr>)) =
     Inr \<lparr>format = ''module'', url = ''file:///app/fs/promises''\<rparr>"
proof -
  have path: "modTester_test ''fs/promises''"
    by (simp add: modTester_test_def is_line_terminator_def)
  then have ignored: "resolve h ''fs/promises'' referrer (Some fallback) =
      resolve h ''fs/promises'' referrer None" for h referrer fallback
    by (simp add: resolve_def)
  have here: "resolve (sample_host [] [] []) ''fs/promises'' (Some ''file:///app/main.ts'') None =
      Inr \<lparr>format = ''module'', url = ''file:///app/fs/promises''\<rparr>"
    by (simp add: resolve_def path sample_host_def sample_new_URL_def sample_extname_def
        startsWith_def TS_EXTENSIONS_def)
  have prefixes: "\<not> startsWith ''fs/promises'' ''./'' \<and> \<not> startsWith ''fs/promises'' ''../'' \<and>
      \<not> startsWith ''fs/promises'' ''/'' \<and> \<not> startsWith ''fs/promises'' ''file:''"
    by (simp add: startsWith_def)
  from prefixes path ignored here show ?thesis by simp
qed

text \<open>
  \<^bold>\<open>Claim C3\<close> says that an extension-less specifier which resolves to a \<^verbatim>\<open>file:\<close> URL is
  completed from the disk: when the directory of the referrer holds exactly one file
  matching the specifier with the extension \<^verbatim>\<open>.ts\<close> or \<^verbatim>\<open>.tsx\<close>, \<^verbatim>\<open>resolve\<close> returns the URL of
  that file with format \<^verbatim>\<open>dynamic\<close>. The code enters the inference by the resolved URL
  (no extension, protocol \<^verbatim>\<open>file:\<close>), but it builds the pattern for \<^verbatim>\<open>globby\<close> from the
  text of the specifier, not from the resolved path. For a specifier written as a
  \<^verbatim>\<open>file:\<close> URL, which the first test of \<^verbatim>\<open>resolve\<close> sends down this path on purpose, the
  pattern is the text of the URL, and that names no file of the directory.

  On the sample host the directory \<^verbatim>\<open>/app\<close> holds \<^verbatim>\<open>dep.ts\<close> and no \<^verbatim>\<open>dep.tsx\<close>, and \<^verbatim>\<open>globby\<close>
  finds that one file for \<^verbatim>\<open>./dep{.ts,.tsx}\<close>. From \<^verbatim>\<open>file:///app/main.ts\<close> the specifiers
  \<^verbatim>\<open>./dep\<close> and \<^verbatim>\<open>file:///app/dep\<close> resolve to the same extension-less URL. The first is
  completed to \<^verbatim>\<open>file:///app/dep.ts\<close> with format \<^verbatim>\<open>dynamic\<close>, as the claim says. For the
  second \<^verbatim>\<open>globby\<close> is asked for \<^verbatim>\<open>file:///app/dep{.ts,.tsx}\<close>, finds nothing, and \<^verbatim>\<open>resolve\<close>
  returns the URL as it is, with format \<^verbatim>\<open>module\<close>.
\<close>

theorem resolve_file_url_specifier_not_inferred:
  "fs_readFile (sample_host [] [''/app/dep.ts''] []) ''file:///app/dep.ts'' =
     Inr ''export const x: number = 1'' \<and>
   fs_readFile (sample_host [] [''/app/dep.ts''] []) ''file:///app/dep.tsx'' =
     Inl (HostError ''ENOENT'') \<and>
   globby (sample_host [] [''/app/dep.ts''] []) ''./dep{.ts,.tsx}'' ''/app'' = [''/app/dep.ts''] \<and>
   new_URL (sample_host [] [''/app/dep.ts''] []) ''./dep'' (Some ''file:///app/main.ts'') =
     Inr \<lparr>href = ''file:///app/dep'', protocol = ''file:'', pathname = ''/app/dep''\<rparr> \<and>
   new_URL (sample_host [] [''/app/dep.ts''] []) ''file:///app/dep'' (Some ''file:///app/main.ts'') =
     Inr \<lparr>href = ''file:///app/dep'', protocol = ''file:'', pathname = ''/app/dep''\<rparr> \<and>
   path_extname (sample_host [] [''/app/dep.ts''] []) ''/app/dep'' = [] \<and>
   resolve (sample_host [] [''/app/dep.ts''] []) ''./dep'' (Some ''file:///app/main.ts'') None =
     Inr \<lparr>format = ''dynamic'', url = ''file:///app/dep.ts''\<rparr> \<and>
   resolve (sample_host [] [''/app/dep.ts''] []) ''file:///app/dep''
       (Some ''file:///app/main.ts'') None =
     Inr \<lparr>format = ''module'', url = ''file:///app/dep''\<rparr>"
proof -
  let ?h = "sample_host [] [''/app/dep.ts''] []"
  have disk: "fs_readFile ?h ''file:///app/dep.ts'' = Inr ''export const x: number = 1''"
    "fs_readFile ?h ''file:///app/dep.tsx'' = Inl (HostError ''ENOENT'')"
    "globby ?h ''./dep{.ts,.tsx}'' ''/app'' = [''/app/dep.ts'']"
    by (simp_all add: sample_host_def)
  have urls:
    "new_URL ?h ''./dep'' (Some ''file:///app/main.ts'') =
       Inr \<lparr>href = ''file:///app/dep'', protocol = ''file:'', pathname = ''/app/dep''\<rparr>"
    "new_URL ?h ''file:///app/dep'' (Some ''file:///app/main.ts'') =
       Inr \<lparr>href = ''file:///app/dep'', protocol = ''file:'', pathname = ''/app/dep''\<rparr>"
    "path_extname ?h ''/app/dep'' = []"
    by (simp_all add: sample_host_def sample_new_URL_def sample_extname_def)
  have relative: "resolve ?h ''./dep'' (Some ''file:///app/main.ts'') None =
      Inr \<lparr>format = ''dynamic'', url = ''file:///app/dep.ts''\<rparr>"
    by (simp add: resolve_def sample_simps)
  have as_url: "resolve ?h ''file:///app/dep'' (Some ''file:///app/main.ts'') None =
      Inr \<lparr>format = ''module'', url = ''file:///app/dep''\<rparr>"
    by (simp add: resolve_def sample_simps)
  from disk urls relative as_url show ?thesis by (intro conjI)
qed

text \<open>
  \<^bold>\<open>Claim C4\<close> says that the compilation fails with the error built from the
  diagnostics exactly when the diagnostic pass reports an error-level diagnostic, and
  that it returns the transpiled module text when the pass reports none. The text is
  not returned as it is: a \<^verbatim>\<open>SourceTextModule\<close> is constructed from it, and the constructor
  parses it. On the sample host \<^verbatim>\<open>view.tsx\<close> holds a JSX element and the configuration
  keeps JSX in the output. The diagnostic pass reports nothing, the transpiled text
  still holds the element, the VM does not parse it, and the compilation fails with the
  \<^verbatim>\<open>SyntaxError\<close> of the constructor: no diagnostic, and no module either.
\<close>

theorem transpile_unparsable_output_counterexample:
  "ts_getPreEmitDiagnostics (sample_host [] [] [])
       (createProgram [''/app/view.tsx'']
          (programOptions_of (compilerOptions_of (JSObject [(''jsx'', JSNumber 1)])))) = [] \<and>
   ts_transpileModule (sample_host [] [] []) ''export const v = <b />''
       \<lparr>compilerOptions = compilerOptions_of (JSObject [(''jsx'', JSNumber 1)]),
          reportDiagnostics = True\<rparr> = ''export const v = <b />;'' \<and>
   fst (transpileTypeScriptToModule (sample_host [] [] []) ''file:///app/view.tsx'' initial_state) =
     Inl (SyntaxError ''Unexpected token'')"
  by (simp add: transpileTypeScriptToModule_def sample_simps Let_def new_SourceTextModule_def
      setRootPath_def createProgram_def)

text \<open>
  \<^bold>\<open>Claim C4\<close>, amended. Suppose the source file has been read and its configuration
  loaded, so that the diagnostic pass and the transpilation run. Then
  \<^verbatim>\<open>transpileTypeScriptToModule\<close> fails with \<^verbatim>\<open>createTSError\<close> of the whole list if and only
  if the pass reports at least one diagnostic. The code tests the length of the list
  and not the categories; when every diagnostic the pass reports is error-level, this
  is the claim's condition, at least one error-level diagnostic. When the pass reports
  no diagnostic, a module is constructed from the text that \<^verbatim>\<open>ts.transpileModule\<close>
  produced from the file with the merged compiler options: if the VM parses the text,
  the call returns that module, which holds the text; if not, the call fails with the
  \<^verbatim>\<open>SyntaxError\<close> of the constructor. So the call fails exactly when there is a
  diagnostic or the VM rejects the transpiled text.
\<close>

theorem transpile_fails_iff_diagnostic_or_syntax_error:
  assumes "new_URL h u None = Inr sourceFileURL"
    and "fileURLToPath h (href sourceFileURL) = Inr sourceFilePath"
    and "fs_readFile h (href sourceFileURL) = Inr sourceFile"
    and "getTSConfig h (Some (path_dirname h sourceFilePath)) (path_dirname h sourceFilePath) =
           Inr tsConfig"
    and "ts_getPreEmitDiagnostics h
           (createProgram [sourceFilePath] (programOptions_of (compilerOptions_of tsConfig))) =
           diagnostics"
    and "ts_transpileModule h sourceFile
           \<lparr>compilerOptions = compilerOptions_of tsConfig, reportDiagnostics = True\<rparr> =
           outputText"
  shows "(fst (transpileTypeScriptToModule h u s) = Inl (createTSError diagnostics) \<longleftrightarrow>
            diagnostics \<noteq> []) \<and>
         ((\<forall>d \<in> set diagnostics. category d = Error) \<longrightarrow>
            (fst (transpileTypeScriptToModule h u s) = Inl (createTSError diagnostics) \<longleftrightarrow>
               (\<exists>d \<in> set diagnostics. category d = Error))) \<and>
         (diagnostics = [] \<and> vm_parse h outputText = None \<longrightarrow>
            (\<exists>m s'. transpileTypeScriptToModule h u s = (Inr m, s') \<and>
               heap s' m = Some (SourceTextModule \<lparr>sourceText = outputText, module_url = u\<rparr>))) \<and>
         (\<forall>msg. diagnostics = [] \<and> vm_parse h outputText = Some msg \<longrightarrow>
            fst (transpileTypeScriptToModule h u s) = Inl (SyntaxError msg)) \<and>
         ((\<exists>e. fst (transpileTypeScriptToModule h u s) = Inl e) \<longleftrightarrow>
            diagnostics \<noteq> [] \<or> vm_parse h outputText \<noteq> None)"
proof -
  let ?s1 = "s\<lparr>transpile_calls := transpile_calls s @ [u],
               rootPath := Some (path_dirname h sourceFilePath)\<rparr>"
  have failing: "fst (transpileTypeScriptToModule h u s) = Inl (createTSError diagnostics)"
    if "diagnostics \<noteq> []"
    using assms that by (simp add: transpileTypeScriptToModule_def Let_def setRootPath_def)
  have building: "transpileTypeScriptToModule h u s =
      (case new_SourceTextModule h outputText ?s1 of
         (Inl e, s2) \<Rightarrow> (Inl e, s2)
       | (Inr sourceTextModule, s2) \<Rightarrow> (Inr sourceTextModule, set_module_url sourceTextModule u s2))"
    if "diagnostics = []"
    using assms that by (simp add: transpileTypeScriptToModule_def Let_def setRootPath_def)
  have rejected: "fst (transpileTypeScriptToModule h u s) = Inl (SyntaxError msg)"
    if "diagnostics = []" "vm_parse h outputText = Some msg" for msg
    using that by (simp add: building new_SourceTextModule_def)
  have accepted: "\<exists>m s'. transpileTypeScriptToModule h u s = (Inr m, s') \<and>
      heap s' m = Some (SourceTextModule \<lparr>sourceText = outputText, module_url = u\<rparr>)"
    if "diagnostics = []" "vm_parse h outputText = None"
    using that by (simp add: building new_SourceTextModule_def new_object_def set_module_url_def)
  have first: "fst (transpileTypeScriptToModule h u s) = Inl (createTSError diagnostics) \<longleftrightarrow>
      diagnostics \<noteq> []"
  proof (cases "diagnostics = []")
    case False
    with failing show ?thesis by simp
  next
    case True
    show ?thesis
    proof (cases "vm_parse h outputText")
      case None
      from accepted[OF True None] True show ?thesis by auto
    next
      case (Some msg)
      from rejected[OF True Some] True show ?thesis by (simp add: createTSError_def)
    qed
  qed
  have levels: "(\<forall>d \<in> set diagnostics. category d = Error) \<longrightarrow>
      (fst (transpileTypeScriptToModule h u s) = Inl (createTSError diagnostics) \<longleftrightarrow>
         (\<exists>d \<in> set diagnostics. category d = Error))"
    using first by (cases diagnostics) auto
  have last: "(\<exists>e. fst (transpileTypeScriptToModule h u s) = Inl e) \<longleftrightarrow>
      diagnostics \<noteq> [] \<or> vm_parse h outputText \<noteq> None"
  proof (cases "diagnostics = []")
    case False
    with failing show ?thesis by simp
  next
    case True
    show ?thesis
    proof (cases "vm_parse h outputText")
      case None
      from accepted[OF True None] True None show ?thesis by auto
    next
      case (Some msg)
      from rejected[OF True Some] True Some show ?thesis by simp
    qed
  qed
  from first levels accepted rejected last show ?thesis by blast
qed

text \<open>
  On the sample host: a type error in \<^verbatim>\<open>dep.ts\<close> fails the compilation with the
  diagnostic; without diagnostics the module of \<^verbatim>\<open>dep.ts\<close> holds the transpiled text;
  \<^verbatim>\<open>view.tsx\<close>, without diagnostics either, fails with the \<^verbatim>\<open>SyntaxError\<close>.
\<close>

theorem transpile_fails_iff_diagnostic_or_syntax_error_witness:
  "fst (transpileTypeScriptToModule
          (sample_host [\<lparr>category = Error, code = 2322, messageText = ''Type mismatch''\<rparr>] [] [])
          ''file:///app/dep.ts'' initial_state) =
     Inl (createTSError [\<lparr>category = Error, code = 2322, messageText = ''Type mismatch''\<rparr>]) \<and>
   (\<exists>m s'. transpileTypeScriptToModule (sample_host [] [] []) ''file:///app/dep.ts'' initial_state =
        (Inr m, s') \<and>
      heap s' m = Some (SourceTextModule
        \<lparr>sourceText = ''export const x = 1;'', module_url = ''file:///app/dep.ts''\<rparr>)) \<and>
   fst (transpileTypeScriptToModule (sample_host [] [] []) ''file:///app/view.tsx'' initial_state) =
     Inl (SyntaxError ''Unexpected token'')"
proof -
  let ?d = "\<lparr>category = Error, code = 2322, messageText = ''Type mismatch''\<rparr>"
  let ?dep = "\<lparr>href = ''file:///app/dep.ts'', protocol = ''file:'', pathname = ''/app/dep.ts''\<rparr>"
  let ?view = "\<lparr>href = ''file:///app/view.tsx'', protocol = ''file:'', pathname = ''/app/view.tsx''\<rparr>"
  let ?cfg = "JSObject [(''jsx'', JSNumber 1)]"
  have dep_pre:
    "new_URL (sample_host ds [] []) ''file:///app/dep.ts'' None = Inr ?dep"
    "fileURLToPath (sample_host ds [] []) (href ?dep) = Inr ''/app/dep.ts''"
    "fs_readFile (sample_host ds [] []) (href ?dep) = Inr ''export const x: number = 1''"
    "getTSConfig (sample_host ds [] [])
       (Some (path_dirname (sample_host ds [] []) ''/app/dep.ts''))
       (path_dirname (sample_host ds [] []) ''/app/dep.ts'') = Inr ?cfg"
    "ts_getPreEmitDiagnostics (sample_host ds [] [])
       (createProgram [''/app/dep.ts''] (programOptions_of (compilerOptions_of ?cfg))) = ds"
    "ts_transpileModule (sample_host ds [] []) ''export const x: number = 1''
       \<lparr>compilerOptions = compilerOptions_of ?cfg, reportDiagnostics = True\<rparr> =
       ''export const x = 1;''"
    "vm_parse (sample_host ds [] []) ''export const x = 1;'' = None" for ds
    by (simp_all add: sample_simps createProgram_def)
  have view_pre:
    "new_URL (sample_host [] [] []) ''file:///app/view.tsx'' None = Inr ?view"
    "fileURLToPath (sample_host [] [] []) (href ?view) = Inr ''/app/view.tsx''"
    "fs_readFile (sample_host [] [] []) (href ?view) = Inr ''export const v = <b />''"
    "getTSConfig (sample_host [] [] [])
       (Some (path_dirname (sample_host [] [] []) ''/app/view.tsx''))
       (path_dirname (sample_host [] [] []) ''/app/view.tsx'') = Inr ?cfg"
    "ts_getPreEmitDiagnostics (sample_host [] [] [])
       (createProgram [''/app/view.tsx''] (programOptions_of (compilerOptions_of ?cfg))) = []"
    "ts_transpileModule (sample_host [] [] []) ''export const v = <b />''
       \<lparr>compilerOptions = compilerOptions_of ?cfg, reportDiagnostics = True\<rparr> =
       ''export const v = <b />;''"
    "vm_parse (sample_host [] [] []) ''export const v = <b />;'' = Some ''Unexpected token''"
    by (simp_all add: sample_simps createProgram_def)
  have failing: "fst (transpileTypeScriptToModule (sample_host [?d] [] []) ''file:///app/dep.ts''
      initial_state) = Inl (createTSError [?d])"
    using transpile_fails_iff_diagnostic_or_syntax_error[where h = "sample_host [?d] [] []"
        and s = initial_state, OF dep_pre(1-6)]
    by blast
  have building: "\<exists>m s'. transpileTypeScriptToModule (sample_host [] [] []) ''file:///app/dep.ts''
        initial_state = (Inr m, s') \<and>
      heap s' m = Some (SourceTextModule
        \<lparr>sourceText = ''export const x = 1;'', module_url = ''file:///app/dep.ts''\<rparr>)"
    using transpile_fails_iff_diagnostic_or_syntax_error[where h = "sample_host [] [] []"
        and s = initial_state, OF dep_pre(1-6)] dep_pre(7)[of "[]"]
    by blast
  have rejected: "fst (transpileTypeScriptToModule (sample_host [] [] []) ''file:///app/view.tsx''
      initial_state) = Inl (SyntaxError ''Unexpected token'')"
    using transpile_fails_iff_diagnostic_or_syntax_error[where s = initial_state,
        OF view_pre(1-6)] view_pre(7)
    by blast
  from failing building rejected show ?thesis by (intro conjI)
qed

text \<open>
  \<^bold>\<open>Claim C5\<close> (native flattening). When the linker imports a native module (format
  \<^verbatim>\<open>commonjs\<close> or \<^verbatim>\<open>module\<close>) and the import succeeds, it returns a new
  \<^verbatim>\<open>SyntheticModule\<close> built from an object \<^verbatim>\<open>link\<close> such that: the keys of \<^verbatim>\<open>link\<close> are
  the names of the module's exports together with the keys of the own enumerable
  properties of its default export; under every export name \<^verbatim>\<open>link\<close> holds the
  exported value, also when the default export has a property of that name; under any
  other key it holds what the default export holds. The export names of the built
  module are \<^verbatim>\<open>Object.keys(link)\<close>, stored in the module when it is built.
\<close>

theorem linker_native_flattening:
  assumes "resolve h specifier (Some parent) None = Inr r"
    and "format r = ''commonjs'' \<or> format r = ''module''"
    and "native_import h (url r) = Inr imported"
  shows "\<exists>m s' link.
           linker h specifier parent s = (Inr m, s') \<and>
           heap s' m = Some (SyntheticModule \<lparr>exportNames = Object_keys link, link_object = link\<rparr>) \<and>
           set (Object_keys link) =
             set (Object_keys imported) \<union>
             set (Object_keys (own_enumerable (get_prop imported ''default''))) \<and>
           (\<forall>k \<in> set (Object_keys imported). get_prop link k = get_prop imported k) \<and>
           (\<forall>k. k \<notin> set (Object_keys imported) \<longrightarrow>
              get_prop link k = get_prop (own_enumerable (get_prop imported ''default'')) k)"
proof -
  let ?link = "if ToBoolean (get_prop imported ''default'')
               then spread (get_prop imported ''default'') (JSObject imported)
               else imported"
  let ?s' = "s\<lparr>heap := (heap s)(next_ref s \<mapsto>
                  SyntheticModule \<lparr>exportNames = Object_keys ?link, link_object = ?link\<rparr>),
               next_ref := Suc (next_ref s)\<rparr>"
  have run: "linker h specifier parent s = (Inr (next_ref s), ?s')"
    unfolding linker_native[OF assms] Let_def by (rule refl)
  have stored: "heap ?s' (next_ref s) =
      Some (SyntheticModule \<lparr>exportNames = Object_keys ?link, link_object = ?link\<rparr>)"
    by simp
  from run stored flattened_bag[where imported=imported] show ?thesis
    by blast
qed

text \<open>
  On the sample host: \<^verbatim>\<open>lib.js\<close> exports \<^verbatim>\<open>a = 2\<close> and the default \<^verbatim>\<open>{a: 1, b: 3}\<close>. The
  flattened object has the keys \<^verbatim>\<open>a\<close>, \<^verbatim>\<open>b\<close>, \<^verbatim>\<open>default\<close>, and \<^verbatim>\<open>a\<close> is 2.
\<close>

theorem linker_native_flattening_witness:
  "\<exists>m s' link.
     linker (sample_host [] []
               [(''a'', JSNumber 2), (''default'', JSObject [(''a'', JSNumber 1), (''b'', JSNumber 3)])])
        ''./lib.js'' ''file:///app/main.ts'' initial_state = (Inr m, s') \<and>
     heap s' m = Some (SyntheticModule \<lparr>exportNames = Object_keys link, link_object = link\<rparr>) \<and>
     set (Object_keys link) = {''a'', ''b'', ''default''} \<and>
     get_prop link ''a'' = JSNumber 2 \<and> get_prop link ''b'' = JSNumber 3"
proof -
  let ?lib = "[(''a'', JSNumber 2), (''default'', JSObject [(''a'', JSNumber 1), (''b'', JSNumber 3)])]"
  let ?h = "sample_host [] [] ?lib"
  have native: "format \<lparr>format = ''module'', url = ''file:///app/lib.js''\<rparr> = ''commonjs'' \<or>
                format \<lparr>format = ''module'', url = ''file:///app/lib.js''\<rparr> = ''module''"
    by simp
  have imp: "native_import ?h (url \<lparr>format = ''module'', url = ''file:///app/lib.js''\<rparr>) = Inr ?lib"
    by (simp add: sample_host_def)
  from linker_native_flattening[OF sample_resolve_lib native imp, of initial_state]
  obtain m s' link where
    run: "linker ?h ''./lib.js'' ''file:///app/main.ts'' initial_state = (Inr m, s')" and
    built: "heap s' m = Some (SyntheticModule \<lparr>exportNames = Object_keys link, link_object = link\<rparr>)" and
    keys: "set (Object_keys link) =
             set (Object_keys ?lib) \<union> set (Object_keys (own_enumerable (get_prop ?lib ''default'')))" and
    named: "\<forall>k \<in> set (Object_keys ?lib). get_prop link k = get_prop ?lib k" and
    dflt: "\<forall>k. k \<notin> set (Object_keys ?lib) \<longrightarrow>
              get_prop link k = get_prop (own_enumerable (get_prop ?lib ''default'')) k"
    by blast
  from keys have "set (Object_keys link) = {''a'', ''b'', ''default''}"
    by (auto simp: Object_keys_def get_prop_def)
  moreover from named have "get_prop link ''a'' = JSNumber 2"
    by (simp add: Object_keys_def get_prop_def)
  moreover from dflt have "get_prop link ''b'' = JSNumber 3"
    by (simp add: Object_keys_def get_prop_def)
  ultimately show ?thesis using run built by blast
qed

text \<open>
  \<^bold>\<open>Claim C6\<close> (a failed build is not cached). Let a link request resolve to a
  typed-source URL and fail. Then the cache is what it was before the call and has no
  entry for the URL, no module object has been built, and the compiler has been called
  once for the URL. The same request, made again, calls the compiler again: it is the
  compilation in the state the failure left, followed by the insertion into the cache
  if it now succeeds, and after it the history holds the URL twice more than before the
  first request.
\<close>

theorem linker_failed_build_not_cached:
  assumes "resolve h specifier (Some parent) None = Inr r" and "format r = ''dynamic''"
    and "linker h specifier parent s = (Inl e, s1)"
  shows "moduleMap s1 = moduleMap s \<and> moduleMap s1 (url r) = None \<and> heap s1 = heap s \<and>
         transpile_calls s1 = transpile_calls s @ [url r] \<and>
         linker h specifier parent s1 =
           (case transpileTypeScriptToModule h (url r) s1 of
              (Inl e', s2) \<Rightarrow> (Inl e', s2)
            | (Inr newModule, s2) \<Rightarrow>
                (Inr newModule, s2\<lparr>moduleMap := (moduleMap s2)(url r \<mapsto> newModule)\<rparr>)) \<and>
         transpile_calls (snd (linker h specifier parent s1)) = transpile_calls s @ [url r, url r]"
proof -
  have miss: "moduleMap s (url r) = None"
    using assms(3) linker_dynamic[OF assms(1,2), of s] by (cases "moduleMap s (url r)") auto
  obtain res t where t: "transpileTypeScriptToModule h (url r) s = (res, t)"
    by (cases "transpileTypeScriptToModule h (url r) s")
  with miss assms(3) linker_dynamic[OF assms(1,2), of s]
  have res: "res = Inl e" and s1: "s1 = t" by (auto split: sum.splits)
  from transpile_effect[OF t] res s1
  have eff: "moduleMap s1 = moduleMap s" "heap s1 = heap s"
    "transpile_calls s1 = transpile_calls s @ [url r]" by simp_all
  from eff(1) miss have miss1: "moduleMap s1 (url r) = None" by simp
  have again: "linker h specifier parent s1 =
           (case transpileTypeScriptToModule h (url r) s1 of
              (Inl e', s2) \<Rightarrow> (Inl e', s2)
            | (Inr newModule, s2) \<Rightarrow>
                (Inr newModule, s2\<lparr>moduleMap := (moduleMap s2)(url r \<mapsto> newModule)\<rparr>))"
    using linker_dynamic[OF assms(1,2), of s1] miss1 by simp
  obtain res2 t2 where t2: "transpileTypeScriptToModule h (url r) s1 = (res2, t2)"
    by (cases "transpileTypeScriptToModule h (url r) s1")
  from transpile_effect[OF t2] eff(3)
  have "transpile_calls t2 = transpile_calls s @ [url r, url r]" by simp
  with again t2 have "transpile_calls (snd (linker h specifier parent s1)) = transpile_calls s @ [url r, url r]"
    by (cases res2) simp_all
  with eff miss1 again show ?thesis by simp
qed

text \<open>
  On the sample host, with a type error in \<^verbatim>\<open>dep.ts\<close>: the request fails with the
  diagnostics, the cache stays empty, and two requests make two compilations.
\<close>

theorem linker_failed_build_not_cached_witness:
  "fst (linker (sample_host [\<lparr>category = Error, code = 2322, messageText = ''Type mismatch''\<rparr>] [] [])
          ''./dep.ts'' ''file:///app/main.ts'' initial_state) =
     Inl (TSError [\<lparr>category = Error, code = 2322, messageText = ''Type mismatch''\<rparr>]) \<and>
   moduleMap (snd (linker (sample_host [\<lparr>category = Error, code = 2322, messageText = ''Type mismatch''\<rparr>] [] [])
          ''./dep.ts'' ''file:///app/main.ts'' initial_state)) = Map.empty \<and>
   transpile_calls (snd (linker (sample_host [\<lparr>category = Error, code = 2322, messageText = ''Type mismatch''\<rparr>] [] [])
          ''./dep.ts'' ''file:///app/main.ts''
          (snd (linker (sample_host [\<lparr>category = Error, code = 2322, messageText = ''Type mismatch''\<rparr>] [] [])
          ''./dep.ts'' ''file:///app/main.ts'' initial_state)))) =
     [''file:///app/dep.ts'', ''file:///app/dep.ts'']"
proof -
  let ?d = "\<lparr>category = Error, code = 2322, messageText = ''Type mismatch''\<rparr>"
  let ?h = "sample_host [?d] [] []"
  let ?s1 = "snd (linker ?h ''./dep.ts'' ''file:///app/main.ts'' initial_state)"
  have miss: "moduleMap initial_state ''file:///app/dep.ts'' = None"
    by (simp add: initial_state_def)
  have first: "fst (linker ?h ''./dep.ts'' ''file:///app/main.ts'' initial_state) = Inl (TSError [?d])"
    by (rule sample_linker_dep_fails[OF miss])
  then have run: "linker ?h ''./dep.ts'' ''file:///app/main.ts'' initial_state = (Inl (TSError [?d]), ?s1)"
    by (simp add: prod_eq_iff)
  have dyn: "format \<lparr>format = ''dynamic'', url = ''file:///app/dep.ts''\<rparr> = ''dynamic''"
    by simp
  note failed = linker_failed_build_not_cached[OF sample_resolve_dep_ts dyn run]
  from failed have unchanged: "moduleMap ?s1 = moduleMap initial_state"
    by (rule conjunct1)
  from failed have again:
    "transpile_calls (snd (linker ?h ''./dep.ts'' ''file:///app/main.ts'' ?s1)) =
       transpile_calls initial_state @
         [url \<lparr>format = ''dynamic'', url = ''file:///app/dep.ts''\<rparr>,
          url \<lparr>format = ''dynamic'', url = ''file:///app/dep.ts''\<rparr>]"
    by blast
  from first unchanged again show ?thesis by (simp add: initial_state_def)
qed

text \<open>
  \<^bold>\<open>Claim C7\<close> (the \<^verbatim>\<open>url\<close> of a cached module is its key). In every reachable state,
  an entry of the cache under a URL refers to a \<^verbatim>\<open>SourceTextModule\<close> whose \<^verbatim>\<open>url\<close> is that
  URL. A link request that resolves to a typed-source URL and returns a module returns
  the module the cache then holds under the resolved URL, and the \<^verbatim>\<open>url\<close> of that
  module is the resolved URL. The builder itself returns a module whose \<^verbatim>\<open>url\<close> is its
  argument, whatever default the constructor had given it.
\<close>

theorem cached_module_url_is_key:
  assumes "reachable h s"
  shows "(\<forall>u m. moduleMap s u = Some m \<longrightarrow>
            (\<exists>stm. heap s m = Some (SourceTextModule stm) \<and> module_url stm = u)) \<and>
         (\<forall>specifier parent r m s'.
            resolve h specifier (Some parent) None = Inr r \<and> format r = ''dynamic'' \<and>
            linker h specifier parent s = (Inr m, s') \<longrightarrow>
            moduleMap s' (url r) = Some m \<and>
            (\<exists>stm. heap s' m = Some (SourceTextModule stm) \<and> module_url stm = url r)) \<and>
         (\<forall>u m s'. transpileTypeScriptToModule h u s = (Inr m, s') \<longrightarrow>
            (\<exists>stm. heap s' m = Some (SourceTextModule stm) \<and> module_url stm = u))"
proof -
  have stored: "\<forall>u m. moduleMap s u = Some m \<longrightarrow>
            (\<exists>stm. heap s m = Some (SourceTextModule stm) \<and> module_url stm = u)"
    using reachable_consistent[OF assms] by (simp add: cache_consistent_def)
  have returned: "\<forall>specifier parent r m s'.
            resolve h specifier (Some parent) None = Inr r \<and> format r = ''dynamic'' \<and>
            linker h specifier parent s = (Inr m, s') \<longrightarrow>
            moduleMap s' (url r) = Some m \<and>
            (\<exists>stm. heap s' m = Some (SourceTextModule stm) \<and> module_url stm = url r)"
  proof (intro allI impI)
    fix specifier parent r m s'
    assume a: "resolve h specifier (Some parent) None = Inr r \<and> format r = ''dynamic'' \<and>
              linker h specifier parent s = (Inr m, s')"
    then have "reachable h s'" using assms by (blast intro: reachable_linker)
    then have c: "cache_consistent s'" by (rule reachable_consistent)
    have hit: "moduleMap s' (url r) = Some m"
    proof (cases "moduleMap s (url r)")
      case None
      obtain res t where t: "transpileTypeScriptToModule h (url r) s = (res, t)"
        by (cases "transpileTypeScriptToModule h (url r) s")
      with a None linker_dynamic[of h specifier parent r s] show ?thesis
        by (cases res) auto
    next
      case (Some c)
      with a linker_dynamic[of h specifier parent r s] show ?thesis by auto
    qed
    with c show "moduleMap s' (url r) = Some m \<and>
              (\<exists>stm. heap s' m = Some (SourceTextModule stm) \<and> module_url stm = url r)"
      by (simp add: cache_consistent_def)
  qed
  have built: "\<forall>u m s'. transpileTypeScriptToModule h u s = (Inr m, s') \<longrightarrow>
            (\<exists>stm. heap s' m = Some (SourceTextModule stm) \<and> module_url stm = u)"
  proof (intro allI impI)
    fix u m s' assume "transpileTypeScriptToModule h u s = (Inr m, s')"
    from transpile_effect[OF this]
    show "\<exists>stm. heap s' m = Some (SourceTextModule stm) \<and> module_url stm = u"
      by auto
  qed
  from stored returned built show ?thesis by (intro conjI)
qed

text \<open>
  On the sample host: after a request for \<^verbatim>\<open>./dep.ts\<close> the state is reachable and the
  cache holds module 0 under \<^verbatim>\<open>file:///app/dep.ts\<close>, which is the \<^verbatim>\<open>url\<close> of module 0.
\<close>

theorem cached_module_url_is_key_witness:
  "reachable (sample_host [] [] [])
     (snd (linker (sample_host [] [] []) ''./dep.ts'' ''file:///app/main.ts'' initial_state)) \<and>
   moduleMap (snd (linker (sample_host [] [] []) ''./dep.ts'' ''file:///app/main.ts'' initial_state))
     ''file:///app/dep.ts'' = Some 0 \<and>
   (\<exists>stm. heap (snd (linker (sample_host [] [] []) ''./dep.ts'' ''file:///app/main.ts''
                        initial_state)) 0 = Some (SourceTextModule stm) \<and>
          module_url stm = ''file:///app/dep.ts'')"
proof -
  let ?h = "sample_host [] [] []"
  let ?s1 = "snd (linker ?h ''./dep.ts'' ''file:///app/main.ts'' initial_state)"
  have miss: "moduleMap initial_state ''file:///app/dep.ts'' = None"
    by (simp add: initial_state_def)
  from sample_linker_dep_ok[OF miss, of "[]" "[]"]
  have run: "linker ?h ''./dep.ts'' ''file:///app/main.ts'' initial_state = (Inr 0, ?s1)"
    by (simp add: prod_eq_iff initial_state_def)
  have start: "reachable ?h initial_state" by (rule reachable_initial)
  then have r: "reachable ?h ?s1" using run by (rule reachable_linker)
  have dyn: "format \<lparr>format = ''dynamic'', url = ''file:///app/dep.ts''\<rparr> = ''dynamic''"
    by simp
  from cached_module_url_is_key[OF start] sample_resolve_dep_ts[of "[]" "[]" "[]"] dyn run
  have "moduleMap ?s1 (url \<lparr>format = ''dynamic'', url = ''file:///app/dep.ts''\<rparr>) = Some 0"
    by blast
  then have hit: "moduleMap ?s1 ''file:///app/dep.ts'' = Some 0" by simp
  with cached_module_url_is_key[OF r]
  have "\<exists>stm. heap ?s1 0 = Some (SourceTextModule stm) \<and> module_url stm = ''file:///app/dep.ts''"
    by blast
  with r hit show ?thesis by blast
qed

text \<open>
  \<^bold>\<open>Claim C8\<close> (native links leave the cache alone). Let a link request resolve to a
  native format (\<^verbatim>\<open>commonjs\<close> or \<^verbatim>\<open>module\<close>). The call does not change the cache. It
  does not read it either: run with any other cache, it returns the same result and
  the same state, but for that cache. And it builds a new wrapper each time: when two
  such requests in a row both return, the first returns the next free reference, the
  second the one after it, and both are \<^verbatim>\<open>SyntheticModule\<close> objects.
\<close>

theorem linker_native_leaves_cache:
  assumes "resolve h specifier (Some parent) None = Inr r"
    and "format r = ''commonjs'' \<or> format r = ''module''"
  shows "moduleMap (snd (linker h specifier parent s)) = moduleMap s \<and>
         linker h specifier parent (s\<lparr>moduleMap := cache\<rparr>) =
           (fst (linker h specifier parent s), (snd (linker h specifier parent s))\<lparr>moduleMap := cache\<rparr>) \<and>
         (\<forall>m1 s1 m2 s2. linker h specifier parent s = (Inr m1, s1) \<and>
              linker h specifier parent s1 = (Inr m2, s2) \<longrightarrow>
            m1 = next_ref s \<and> m2 = Suc m1 \<and> m1 \<noteq> m2 \<and>
            (\<exists>w1 w2. heap s2 m1 = Some (SyntheticModule w1) \<and> heap s2 m2 = Some (SyntheticModule w2)))"
proof (cases "native_import h (url r)")
  case (Inl e)
  with assms show ?thesis by (simp add: linker_def)
next
  case (Inr imported)
  note eq = linker_native[OF assms Inr]
  show ?thesis
    by (auto simp: eq Let_def)
qed

text \<open>
  On the sample host: two requests for \<^verbatim>\<open>./lib.js\<close> return the modules 0 and 1, and the
  cache is still the initial one.
\<close>

theorem linker_native_leaves_cache_witness:
  "fst (linker (sample_host [] [] [(''a'', JSNumber 2)]) ''./lib.js'' ''file:///app/main.ts''
          initial_state) = Inr 0 \<and>
   fst (linker (sample_host [] [] [(''a'', JSNumber 2)]) ''./lib.js'' ''file:///app/main.ts''
          (snd (linker (sample_host [] [] [(''a'', JSNumber 2)]) ''./lib.js'' ''file:///app/main.ts''
                  initial_state))) = Inr 1 \<and>
   moduleMap (snd (linker (sample_host [] [] [(''a'', JSNumber 2)]) ''./lib.js''
                     ''file:///app/main.ts'' initial_state)) = moduleMap initial_state"
proof -
  let ?h = "sample_host [] [] [(''a'', JSNumber 2)]"
  let ?s1 = "snd (linker ?h ''./lib.js'' ''file:///app/main.ts'' initial_state)"
  let ?s2 = "snd (linker ?h ''./lib.js'' ''file:///app/main.ts'' ?s1)"
  let ?m2 = "next_ref ?s1"
  have native: "format \<lparr>format = ''module'', url = ''file:///app/lib.js''\<rparr> = ''commonjs'' \<or>
                format \<lparr>format = ''module'', url = ''file:///app/lib.js''\<rparr> = ''module''"
    by simp
  note frame = linker_native_leaves_cache[OF sample_resolve_lib native, where s = initial_state]
  have first: "fst (linker ?h ''./lib.js'' ''file:///app/main.ts'' initial_state) = Inr 0"
    by (simp add: sample_linker_lib Let_def initial_state_def)
  then have one: "linker ?h ''./lib.js'' ''file:///app/main.ts'' initial_state = (Inr 0, ?s1)"
    by (simp add: prod_eq_iff)
  have second: "fst (linker ?h ''./lib.js'' ''file:///app/main.ts'' ?s1) = Inr ?m2"
    by (simp add: sample_linker_lib[of _ _ _ ?s1] Let_def)
  then have two: "linker ?h ''./lib.js'' ''file:///app/main.ts'' ?s1 = (Inr ?m2, ?s2)"
    by (simp add: prod_eq_iff)
  from frame one two have fresh: "?m2 = Suc 0" by blast
  from frame have unchanged: "moduleMap ?s1 = moduleMap initial_state" by (rule conjunct1)
  from first second fresh unchanged show ?thesis by simp
qed

text \<open>
  \<^bold>\<open>Claim C9\<close> (the top level exits with status zero). \<^verbatim>\<open>dynamicInstantiate\<close> never
  rejects. When the build of the entry module fails with an error, and when the build
  succeeds but the link step fails with an error, it prints that error with
  \<^verbatim>\<open>console.error\<close> and the process exits with status 0.
\<close>

theorem dynamicInstantiate_never_rejects:
  "(\<forall>e. fst (dynamicInstantiate h entry_url s) \<noteq> Rejected e) \<and>
   (\<forall>e s1. transpileTypeScriptToModule h entry_url s = (Inl e, s1) \<longrightarrow>
      dynamicInstantiate h entry_url s = (Exited 0, console_error_log e s1)) \<and>
   (\<forall>m s1 e s2. transpileTypeScriptToModule h entry_url s = (Inr m, s1) \<and>
        run_link h (vm_link h m) s1 = (Inl e, s2) \<longrightarrow>
      dynamicInstantiate h entry_url s = (Exited 0, console_error_log e s2))"
  by (auto simp: dynamicInstantiate_def split: prod.splits sum.splits)

text \<open>
  On the sample host, with a type error in \<^verbatim>\<open>dep.ts\<close>: instantiating \<^verbatim>\<open>dep.ts\<close> fails in
  the build, instantiating \<^verbatim>\<open>main.ts\<close> fails in the link step; both exit with status 0.
\<close>

theorem dynamicInstantiate_never_rejects_witness:
  "dynamicInstantiate
       (sample_host [\<lparr>category = Error, code = 2322, messageText = ''Type mismatch''\<rparr>] [] [])
       ''file:///app/dep.ts'' initial_state =
     (Exited 0,
      console_error_log (TSError [\<lparr>category = Error, code = 2322, messageText = ''Type mismatch''\<rparr>])
        (snd (transpileTypeScriptToModule
                (sample_host [\<lparr>category = Error, code = 2322, messageText = ''Type mismatch''\<rparr>] [] [])
                ''file:///app/dep.ts'' initial_state))) \<and>
   fst (dynamicInstantiate
          (sample_host [\<lparr>category = Error, code = 2322, messageText = ''Type mismatch''\<rparr>] [] [])
          ''file:///app/main.ts'' initial_state) = Exited 0"
proof -
  let ?d = "\<lparr>category = Error, code = 2322, messageText = ''Type mismatch''\<rparr>"
  let ?h = "sample_host [?d] [] []"
  note top = dynamicInstantiate_never_rejects[of ?h "''file:///app/dep.ts''" initial_state]
  note sub = dynamicInstantiate_never_rejects[of ?h "''file:///app/main.ts''" initial_state]
  let ?t = "snd (transpileTypeScriptToModule ?h ''file:///app/dep.ts'' initial_state)"
  have "transpileTypeScriptToModule ?h ''file:///app/dep.ts'' initial_state = (Inl (TSError [?d]), ?t)"
    using sample_transpile_fails[of ?d "[]" "[]" "[]" initial_state] by (simp add: prod_eq_iff)
  with top have a: "dynamicInstantiate ?h ''file:///app/dep.ts'' initial_state =
      (Exited 0, console_error_log (TSError [?d]) ?t)" by blast
  let ?s1 = "snd (transpileTypeScriptToModule ?h ''file:///app/main.ts'' initial_state)"
  let ?s2 = "snd (linker ?h ''./dep.ts'' ''file:///app/main.ts'' ?s1)"
  have built: "transpileTypeScriptToModule ?h ''file:///app/main.ts'' initial_state = (Inr 0, ?s1)"
    using sample_transpile_main_ok[of "[?d]" "[]" "[]" initial_state]
    by (simp add: prod_eq_iff initial_state_def)
  from transpile_effect[OF built] have "moduleMap ?s1 ''file:///app/dep.ts'' = None"
    by (simp add: initial_state_def)
  from sample_linker_dep_fails[OF this, of ?d "[]" "[]" "[]"]
  have "run_link ?h (vm_link ?h 0) ?s1 = (Inl (TSError [?d]), ?s2)"
    by (simp add: sample_run_link)
  with built sub have "dynamicInstantiate ?h ''file:///app/main.ts'' initial_state =
      (Exited 0, console_error_log (TSError [?d]) ?s2)" by blast
  with a show ?thesis by simp
qed

text \<open>
  \<^bold>\<open>Claim C10\<close> (a falsy default export is not flattened). When the linker imports a
  native module whose default export is falsy (absent, or present with a value such as
  \<^verbatim>\<open>0\<close>, \<^verbatim>\<open>''\<close>, \<^verbatim>\<open>false\<close> or \<^verbatim>\<open>null\<close>), nothing is merged: the module is built from
  the namespace of the import as it is, and its export names are the keys of that
  namespace.
\<close>

theorem linker_falsy_default_not_flattened:
  assumes "resolve h specifier (Some parent) None = Inr r"
    and "format r = ''commonjs'' \<or> format r = ''module''"
    and "native_import h (url r) = Inr imported"
    and "\<not> ToBoolean (get_prop imported ''default'')"
  shows "\<exists>m s'. linker h specifier parent s = (Inr m, s') \<and>
           heap s' m = Some (SyntheticModule \<lparr>exportNames = Object_keys imported, link_object = imported\<rparr>)"
  unfolding linker_native[OF assms(1-3)] Let_def using assms(4) by simp

text \<open>
  On the sample host: \<^verbatim>\<open>lib.js\<close> exports \<^verbatim>\<open>a = 2\<close> and a default that is present and
  falsy, in turn \<^verbatim>\<open>0\<close>, the empty string, \<^verbatim>\<open>false\<close> and \<^verbatim>\<open>null\<close>.
\<close>

theorem linker_falsy_default_not_flattened_witness:
  "(\<exists>m s'.
      linker (sample_host [] [] [(''a'', JSNumber 2), (''default'', JSNumber 0)])
         ''./lib.js'' ''file:///app/main.ts'' initial_state = (Inr m, s') \<and>
      heap s' m = Some (SyntheticModule
        \<lparr>exportNames = [''a'', ''default''],
         link_object = [(''a'', JSNumber 2), (''default'', JSNumber 0)]\<rparr>)) \<and>
   (\<exists>m s'.
      linker (sample_host [] [] [(''a'', JSNumber 2), (''default'', JSString [])])
         ''./lib.js'' ''file:///app/main.ts'' initial_state = (Inr m, s') \<and>
      heap s' m = Some (SyntheticModule
        \<lparr>exportNames = [''a'', ''default''],
         link_object = [(''a'', JSNumber 2), (''default'', JSString [])]\<rparr>)) \<and>
   (\<exists>m s'.
      linker (sample_host [] [] [(''a'', JSNumber 2), (''default'', JSBoolean False)])
         ''./lib.js'' ''file:///app/main.ts'' initial_state = (Inr m, s') \<and>
      heap s' m = Some (SyntheticModule
        \<lparr>exportNames = [''a'', ''default''],
         link_object = [(''a'', JSNumber 2), (''default'', JSBoolean False)]\<rparr>)) \<and>
   (\<exists>m s'.
      linker (sample_host [] [] [(''a'', JSNumber 2), (''default'', JSNull)])
         ''./lib.js'' ''file:///app/main.ts'' initial_state = (Inr m, s') \<and>
      heap s' m = Some (SyntheticModule
        \<lparr>exportNames = [''a'', ''default''],
         link_object = [(''a'', JSNumber 2), (''default'', JSNull)]\<rparr>))"
proof -
  have native: "format \<lparr>format = ''module'', url = ''file:///app/lib.js''\<rparr> = ''commonjs'' \<or>
                format \<lparr>format = ''module'', url = ''file:///app/lib.js''\<rparr> = ''module''"
    by simp
  have inst: "\<exists>m s'.
      linker (sample_host [] [] [(''a'', JSNumber 2), (''default'', d)])
         ''./lib.js'' ''file:///app/main.ts'' initial_state = (Inr m, s') \<and>
      heap s' m = Some (SyntheticModule
        \<lparr>exportNames = [''a'', ''default''],
         link_object = [(''a'', JSNumber 2), (''default'', d)]\<rparr>)"
    if falsy: "\<not> ToBoolean d" for d
  proof -
    let ?lib = "[(''a'', JSNumber 2), (''default'', d)]"
    have imp: "native_import (sample_host [] [] ?lib)
        (url \<lparr>format = ''module'', url = ''file:///app/lib.js''\<rparr>) = Inr ?lib"
      by (simp add: sample_host_def)
    from falsy have dflt: "\<not> ToBoolean (get_prop ?lib ''default'')"
      by (simp add: get_prop_def)
    have keys: "Object_keys ?lib = [''a'', ''default'']"
      by (simp add: Object_keys_def)
    from linker_falsy_default_not_flattened[OF sample_resolve_lib native imp dflt, of initial_state]
    show ?thesis unfolding keys .
  qed
  have "\<not> ToBoolean (JSNumber 0)" "\<not> ToBoolean (JSString [])" "\<not> ToBoolean (JSBoolean False)"
    "\<not> ToBoolean JSNull" by simp_all
  then show ?thesis by (intro conjI inst)
qed

end
